theory Spec2Isabelle
  imports Main
begin

section \<open>The user settings service\<close>

text \<open>
  The repository holds the GraphQL resolvers of a user settings service twice: once on
  the Kysely query builder (\<^verbatim>\<open>src/nodeJS/graphql-node-review.ts\<close>, suffix \<open>_kysely\<close> below) and
  once on raw \<^verbatim>\<open>pg\<close> statements with a process-wide cache (\<^verbatim>\<open>src/unnamed/part_000\<close>,
  suffix \<open>_pg\<close>). Both are embedded here over one model of the relational store.
  Timestamps (\<^verbatim>\<open>Date\<close>, \<^verbatim>\<open>NOW()\<close>, \<^verbatim>\<open>Date.now()\<close>) are milliseconds as \<open>int\<close>; the
  ISO text a resolver renders from a \<^verbatim>\<open>Date\<close> is represented by the instant it denotes.
\<close>

subsection \<open>Rows and tables\<close>

datatype user_role = ADMIN | MEMBER | VIEWER

record user_row =
  u_id :: string
  u_username :: string
  u_email :: string
  u_role :: user_role
  u_created_at :: int

record setting_row =
  s_id :: string
  s_user_id :: string
  s_setting_key :: string
  s_setting_value :: string
  s_updated_at :: int
  s_updated_by :: "string option"

record activity_row =
  a_id :: string
  a_user_id :: string
  a_action :: string
  a_timestamp :: int
  a_metadata :: "string option"

record database =
  users :: "user_row list"
  settings :: "setting_row list"
  activity_log :: "activity_row list"

datatype error =
    UserNotFound            \<comment> \<open>\<^verbatim>\<open>new Error("User not found")\<close>\<close>
  | ForeignKeyViolation     \<comment> \<open>the store rejects a statement that breaks a reference\<close>
  | QueryRejected           \<comment> \<open>the store rejects a query text\<close>

subsection \<open>The store's statements\<close>

text \<open>\<^verbatim>\<open>SELECT ... FROM users WHERE id = $1\<close>, and Kysely's \<^verbatim>\<open>selectFrom("users").where("id", "=", id)\<close>.\<close>

definition selectUserById :: "string \<Rightarrow> database \<Rightarrow> user_row list" where
  "selectUserById i d = filter (\<lambda>u. u_id u = i) (users d)"

text \<open>\<^verbatim>\<open>executeTakeFirst()\<close>, and \<^verbatim>\<open>result.rows[0]\<close> with \<^verbatim>\<open>undefined\<close> as \<open>None\<close>.\<close>

definition executeTakeFirst :: "'a list \<Rightarrow> 'a option" where
  "executeTakeFirst rows = (case rows of [] \<Rightarrow> None | r # _ \<Rightarrow> Some r)"

definition conflictTarget :: "string \<Rightarrow> string \<Rightarrow> setting_row \<Rightarrow> bool" where
  "conflictTarget uid k r = (s_user_id r = uid \<and> s_setting_key r = k)"

text \<open>
  Modelled from the spec: the table declarations are not part of the sources. The spec
  names a referential violation for a settings write whose user does not exist, and the
  statements name \<^verbatim>\<open>(user_id, setting_key)\<close> as their conflict target. The store modelled
  here enforces the references of \<^verbatim>\<open>settings.user_id\<close> and \<^verbatim>\<open>activity_log.user_id\<close> to
  \<^verbatim>\<open>users.id\<close> (no cascade), and a column the statement leaves out is null.

  \<^verbatim>\<open>INSERT INTO settings ... ON CONFLICT (user_id, setting_key) DO UPDATE SET
  setting_value = .., updated_at = ..\<close>: \<open>newId\<close> and \<open>tIns\<close> are the id and timestamp
  of the row to insert, \<open>tUpd\<close> the timestamp of the update branch. The result is the
  row the statement wrote (what \<^verbatim>\<open>RETURNING\<close> reads) and the new tables.
\<close>

definition upsertSetting ::
  "string \<Rightarrow> int \<Rightarrow> int \<Rightarrow> string \<Rightarrow> string \<Rightarrow> string \<Rightarrow> database
     \<Rightarrow> error + (setting_row \<times> database)" where
  "upsertSetting newId tIns tUpd uid k v d =
     (if selectUserById uid d = [] then Inl ForeignKeyViolation
      else
        (case filter (conflictTarget uid k) (settings d) of
           [] \<Rightarrow>
             (let r = \<lparr>s_id = newId, s_user_id = uid, s_setting_key = k,
                       s_setting_value = v, s_updated_at = tIns, s_updated_by = None\<rparr>
              in Inr (r, d\<lparr>settings := settings d @ [r]\<rparr>))
         | old # _ \<Rightarrow>
             (let upd = (\<lambda>r. r\<lparr>s_setting_value := v, s_updated_at := tUpd\<rparr>)
              in Inr (upd old,
                      d\<lparr>settings := map (\<lambda>r. if conflictTarget uid k r then upd r else r)
                                        (settings d)\<rparr>))))"

text \<open>\<^verbatim>\<open>DELETE FROM activity_log WHERE user_id = $1\<close>.\<close>

definition deleteActivityLog :: "string \<Rightarrow> database \<Rightarrow> database" where
  "deleteActivityLog i d = d\<lparr>activity_log := filter (\<lambda>a. a_user_id a \<noteq> i) (activity_log d)\<rparr>"

text \<open>\<^verbatim>\<open>DELETE FROM settings WHERE user_id = $1\<close>.\<close>

definition deleteSettings :: "string \<Rightarrow> database \<Rightarrow> database" where
  "deleteSettings i d = d\<lparr>settings := filter (\<lambda>s. s_user_id s \<noteq> i) (settings d)\<rparr>"

text \<open>
  Modelled from the spec: the table declarations are not part of the sources (see
  \<open>upsertSetting\<close>). \<^verbatim>\<open>DELETE FROM users WHERE id = $1\<close>: the store rejects the removal of
  a user row that a settings or activity row still references; a statement that matches
  no user row removes nothing and succeeds.
\<close>

definition deleteUsers :: "string \<Rightarrow> database \<Rightarrow> error + database" where
  "deleteUsers i d =
     (if selectUserById i d \<noteq> [] \<and>
         (filter (\<lambda>s. s_user_id s = i) (settings d) \<noteq> [] \<or>
          filter (\<lambda>a. a_user_id a = i) (activity_log d) \<noteq> [])
      then Inl ForeignKeyViolation
      else Inr (d\<lparr>users := filter (\<lambda>u. u_id u \<noteq> i) (users d)\<rparr>))"

subsection \<open>The cache of part_000\<close>

record cache_entry =
  data :: user_row
  timestamp :: int

type_synonym cache = "string \<rightharpoonup> cache_entry"

definition CACHE_TTL :: int where
  "CACHE_TTL = 5 * 60 * 1000"

text \<open>\<open>now\<close> is the value \<^verbatim>\<open>Date.now()\<close> returns inside the call.\<close>

definition getCache :: "int \<Rightarrow> string \<Rightarrow> cache \<Rightarrow> user_row option" where
  "getCache now k c =
     (case c k of
        None \<Rightarrow> None
      | Some entry \<Rightarrow> if now - timestamp entry < CACHE_TTL then Some (data entry) else None)"

definition setCache :: "int \<Rightarrow> string \<Rightarrow> user_row \<Rightarrow> cache \<Rightarrow> cache" where
  "setCache now k d c = c(k \<mapsto> \<lparr>data = d, timestamp = now\<rparr>)"

definition userKey :: "string \<Rightarrow> string" where
  "userKey i = ''user:'' @ i"

subsection \<open>The world a resolver runs in\<close>

text \<open>
  Every statement a resolver sends to the pool is recorded in \<open>issued\<close>, in the order
  sent, whether the store accepts it or not.
\<close>

datatype stmt =
    SelectUser string
  | SelectUserText string
  | UpsertSetting string string string
  | DeleteActivityLog string
  | DeleteSettings string
  | DeleteUsers string

record world =
  db :: database
  cache :: cache
  issued :: "stmt list"

definition send :: "stmt \<Rightarrow> world \<Rightarrow> world" where
  "send q w = w\<lparr>issued := issued w @ [q]\<rparr>"

text \<open>
  What one loop iteration of a mutation reads from outside: the fresh row id
  (\<^verbatim>\<open>crypto.randomUUID()\<close>, or the id the store assigns) and the clock (\<^verbatim>\<open>new Date()\<close> in
  the inserted values and in the update set, or the statement's \<^verbatim>\<open>NOW()\<close>).
\<close>

record draw =
  uuid :: string
  now_ins :: int
  now_upd :: int

record setting_input =
  si_key :: string
  si_value :: string

record bulk_input =
  bi_userId :: string
  bi_key :: string
  bi_value :: string

text \<open>A setting as a resolver hands it on; \<open>sv_updatedById\<close> is \<open>None\<close> when the
  object has no such property or it is null.\<close>

record setting_view =
  sv_id :: string
  sv_key :: string
  sv_value :: string
  sv_updatedAt :: int
  sv_updatedById :: "string option"

record settings_payload =
  sp_success :: bool
  sp_user :: user_row
  sp_settings :: "setting_view list"

record bulk_payload =
  bp_success :: bool
  bp_updatedCount :: nat
  bp_failedUserIds :: "string list"

record delete_payload =
  dp_success :: bool
  dp_deletedId :: string


subsection \<open>Queries of graphql-node-review.ts\<close>

definition user_kysely :: "world \<Rightarrow> string \<Rightarrow> user_row option \<times> world" where
  "user_kysely w i =
     (executeTakeFirst (selectUserById i (db w)), send (SelectUser i) w)"


text \<open>
  \<^verbatim>\<open>Setting.updatedBy\<close>, the same in both files: \<^verbatim>\<open>!setting.updatedById\<close> holds for a
  missing or null property and for the empty string.
\<close>

definition updatedBy :: "world \<Rightarrow> setting_view \<Rightarrow> user_row option \<times> world" where
  "updatedBy w setting =
     (case sv_updatedById setting of
        None \<Rightarrow> (None, w)
      | Some i \<Rightarrow>
          if i = [] then (None, w)
          else (executeTakeFirst (selectUserById i (db w)), send (SelectUser i) w))"

text \<open>The object \<^verbatim>\<open>User.settings\<close> and \<^verbatim>\<open>allSettings\<close> build from a stored row.\<close>

definition storedView :: "setting_row \<Rightarrow> setting_view" where
  "storedView s =
     \<lparr>sv_id = s_id s, sv_key = s_setting_key s, sv_value = s_setting_value s,
      sv_updatedAt = s_updated_at s, sv_updatedById = s_updated_by s\<rparr>"

definition allSettings :: "database \<Rightarrow> setting_view list" where
  "allSettings d = map storedView (settings d)"

definition userSettings :: "string \<Rightarrow> database \<Rightarrow> setting_view list" where
  "userSettings i d = map storedView (filter (\<lambda>s. s_user_id s = i) (settings d))"

text \<open>The object the mutations push from \<^verbatim>\<open>RETURNING id, setting_key, setting_value,
  updated_at\<close>: it has no \<^verbatim>\<open>updatedById\<close> property.\<close>

definition returnedView :: "setting_row \<Rightarrow> setting_view" where
  "returnedView s =
     \<lparr>sv_id = s_id s, sv_key = s_setting_key s, sv_value = s_setting_value s,
      sv_updatedAt = s_updated_at s, sv_updatedById = None\<rparr>"

subsection \<open>Mutations of graphql-node-review.ts\<close>

text \<open>
  The \<^verbatim>\<open>for\<close> loop of \<^verbatim>\<open>updateSettings\<close>; \<open>n\<close> counts the iterations, \<open>env n\<close> is what
  iteration \<open>n\<close> draws. A rejected statement throws out of the loop and keeps what the
  earlier iterations wrote.
\<close>

fun updateLoop_kysely ::
  "(nat \<Rightarrow> draw) \<Rightarrow> nat \<Rightarrow> string \<Rightarrow> world \<Rightarrow> setting_view list \<Rightarrow> setting_input list
     \<Rightarrow> (error + setting_view list) \<times> world" where
  "updateLoop_kysely env n userId w updatedSettings [] = (Inr updatedSettings, w)"
| "updateLoop_kysely env n userId w updatedSettings (e # es) =
     (let w1 = send (UpsertSetting userId (si_key e) (si_value e)) w in
      case upsertSetting (uuid (env n)) (now_ins (env n)) (now_upd (env n))
             userId (si_key e) (si_value e) (db w1) of
        Inl err \<Rightarrow> (Inl err, w1)
      | Inr (r, d) \<Rightarrow>
          updateLoop_kysely env (Suc n) userId (w1\<lparr>db := d\<rparr>)
            (updatedSettings @ [returnedView r]) es)"

definition updateSettings_kysely ::
  "(nat \<Rightarrow> draw) \<Rightarrow> world \<Rightarrow> string \<Rightarrow> setting_input list
     \<Rightarrow> (error + settings_payload) \<times> world" where
  "updateSettings_kysely env w userId inputs =
     (let w0 = send (SelectUser userId) w in
      case executeTakeFirst (selectUserById userId (db w0)) of
        None \<Rightarrow> (Inl UserNotFound, w0)
      | Some user \<Rightarrow>
          (case updateLoop_kysely env 0 userId w0 [] inputs of
             (Inl err, w1) \<Rightarrow> (Inl err, w1)
           | (Inr updatedSettings, w1) \<Rightarrow>
               (Inr \<lparr>sp_success = True, sp_user = user, sp_settings = updatedSettings\<rparr>, w1)))"

definition deleteUser_kysely :: "world \<Rightarrow> string \<Rightarrow> (error + delete_payload) \<times> world" where
  "deleteUser_kysely w i =
     (let w1 = (send (DeleteActivityLog i) w)\<lparr>db := deleteActivityLog i (db w)\<rparr>;
          w2 = (send (DeleteSettings i) w1)\<lparr>db := deleteSettings i (db w1)\<rparr>;
          w3 = send (DeleteUsers i) w2
      in case deleteUsers i (db w3) of
           Inl err \<Rightarrow> (Inl err, w3)
         | Inr d \<Rightarrow> (Inr \<lparr>dp_success = True, dp_deletedId = i\<rparr>, w3\<lparr>db := d\<rparr>))"

text \<open>The \<^verbatim>\<open>for\<close> loop of \<^verbatim>\<open>bulkUpdateSettings\<close> with its \<^verbatim>\<open>try\<close>/\<^verbatim>\<open>catch\<close>.\<close>

fun bulkLoop_kysely ::
  "(nat \<Rightarrow> draw) \<Rightarrow> nat \<Rightarrow> world \<Rightarrow> string list \<Rightarrow> nat \<Rightarrow> bulk_input list
     \<Rightarrow> (string list \<times> nat) \<times> world" where
  "bulkLoop_kysely env n w failedUserIds updatedCount [] = ((failedUserIds, updatedCount), w)"
| "bulkLoop_kysely env n w failedUserIds updatedCount (u # us) =
     (let w1 = send (UpsertSetting (bi_userId u) (bi_key u) (bi_value u)) w in
      case upsertSetting (uuid (env n)) (now_ins (env n)) (now_upd (env n))
             (bi_userId u) (bi_key u) (bi_value u) (db w1) of
        Inr (r, d) \<Rightarrow>
          bulkLoop_kysely env (Suc n) (w1\<lparr>db := d\<rparr>) failedUserIds (updatedCount + 1) us
      | Inl err \<Rightarrow>
          bulkLoop_kysely env (Suc n) w1 (failedUserIds @ [bi_userId u]) updatedCount us)"

definition bulkUpdateSettings_kysely ::
  "(nat \<Rightarrow> draw) \<Rightarrow> world \<Rightarrow> bulk_input list \<Rightarrow> bulk_payload \<times> world" where
  "bulkUpdateSettings_kysely env w updates =
     (case bulkLoop_kysely env 0 w [] 0 updates of
        ((failedUserIds, updatedCount), w') \<Rightarrow>
          (\<lparr>bp_success = (length failedUserIds = 0), bp_updatedCount = updatedCount,
            bp_failedUserIds = failedUserIds\<rparr>, w'))"

subsection \<open>Queries of part_000\<close>

text \<open>
  \<^verbatim>\<open>Query.user\<close> builds its statement by splicing \<open>id\<close> into the query text
  (\<^verbatim>\<open>WHERE id = ${id}\<close>, unquoted and unbound, where every other resolver binds \<^verbatim>\<open>$1\<close>).
  What the store answers to that text is the parameter \<open>answer\<close> of \<open>user_pg\<close> (rows, or a
  rejection that the resolver lets through as an exception); \<open>splicedAnswer\<close> below is
  that answer for the ids it reads. \<open>tGet\<close> and \<open>tSet\<close> are the values of \<^verbatim>\<open>Date.now()\<close>
  in \<^verbatim>\<open>getCache\<close> and in \<^verbatim>\<open>setCache\<close>.
\<close>

text \<open>An upper-case letter followed by digits only, as the ids \<^verbatim>\<open>U1\<close>, \<^verbatim>\<open>A\<close>, \<^verbatim>\<open>B\<close>, \<^verbatim>\<open>C\<close>.\<close>

definition letterThenDigits :: "string \<Rightarrow> bool" where
  "letterThenDigits s =
     (case s of
        [] \<Rightarrow> False
      | c # cs \<Rightarrow>
          c \<in> set ''ABCDEFGHIJKLMNOPQRSTUVWXYZ'' \<and> list_all (\<lambda>x. x \<in> set ''0123456789'') cs)"

text \<open>
  The store's answer to \<^verbatim>\<open>SELECT ... FROM users WHERE id = \<close> followed by the spliced id.
  The store's reading of a query text is not part of the sources; two readings that hold
  for every declaration of the key column are written out, over the columns the files
  name for \<^verbatim>\<open>users\<close> (id, username, email, role, created_at):
  \<^item> the id \<^verbatim>\<open>id\<close> stands there as the column itself, \<^verbatim>\<open>WHERE id = id\<close>, which every row
    satisfies: the answer is the whole table;
  \<^item> an id that is a letter followed by digits stands there as a bare name, which the
    store reads as a column; \<^verbatim>\<open>users\<close> has no such column and the query is rejected.

  For every other text the answer is the parameter \<open>rest\<close>.
\<close>

definition splicedAnswer ::
  "(string \<Rightarrow> database \<Rightarrow> error + user_row list) \<Rightarrow> string \<Rightarrow> database
     \<Rightarrow> error + user_row list" where
  "splicedAnswer rest i d =
     (if i = ''id'' then Inr (users d)
      else if letterThenDigits i then Inl QueryRejected
      else rest i d)"

definition user_pg ::
  "(string \<Rightarrow> database \<Rightarrow> error + user_row list) \<Rightarrow> int \<Rightarrow> int \<Rightarrow> world \<Rightarrow> string
     \<Rightarrow> (error + user_row option) \<times> world" where
  "user_pg answer tGet tSet w i =
     (case getCache tGet (userKey i) (cache w) of
        Some cached \<Rightarrow> (Inr (Some cached), w)
      | None \<Rightarrow>
          (let w1 = send (SelectUserText i) w in
           case answer i (db w1) of
             Inl err \<Rightarrow> (Inl err, w1)
           | Inr [] \<Rightarrow> (Inr None, w1)
           | Inr (row # _) \<Rightarrow>
               (Inr (Some row), w1\<lparr>cache := setCache tSet (userKey i) row (cache w1)\<rparr>)))"




subsection \<open>Mutations of part_000\<close>

text \<open>The statement's \<^verbatim>\<open>NOW()\<close> is one value, \<open>now_ins\<close> of the draw, in both branches; the
  row id is the one the store assigns.\<close>

fun updateLoop_pg ::
  "(nat \<Rightarrow> draw) \<Rightarrow> nat \<Rightarrow> string \<Rightarrow> world \<Rightarrow> setting_view list \<Rightarrow> setting_input list
     \<Rightarrow> (error + setting_view list) \<times> world" where
  "updateLoop_pg env n userId w updatedSettings [] = (Inr updatedSettings, w)"
| "updateLoop_pg env n userId w updatedSettings (e # es) =
     (let w1 = send (UpsertSetting userId (si_key e) (si_value e)) w in
      case upsertSetting (uuid (env n)) (now_ins (env n)) (now_ins (env n))
             userId (si_key e) (si_value e) (db w1) of
        Inl err \<Rightarrow> (Inl err, w1)
      | Inr (r, d) \<Rightarrow>
          updateLoop_pg env (Suc n) userId (w1\<lparr>db := d\<rparr>)
            (updatedSettings @ [returnedView r]) es)"

definition updateSettings_pg ::
  "(nat \<Rightarrow> draw) \<Rightarrow> world \<Rightarrow> string \<Rightarrow> setting_input list
     \<Rightarrow> (error + settings_payload) \<times> world" where
  "updateSettings_pg env w userId inputs =
     (let w0 = send (SelectUser userId) w in
      case selectUserById userId (db w0) of
        [] \<Rightarrow> (Inl UserNotFound, w0)
      | user # _ \<Rightarrow>
          (case updateLoop_pg env 0 userId w0 [] inputs of
             (Inl err, w1) \<Rightarrow> (Inl err, w1)
           | (Inr updatedSettings, w1) \<Rightarrow>
               (Inr \<lparr>sp_success = True, sp_user = user, sp_settings = updatedSettings\<rparr>,
                w1\<lparr>cache := (cache w1)(userKey userId := None)\<rparr>)))"

definition deleteUser_pg :: "world \<Rightarrow> string \<Rightarrow> (error + delete_payload) \<times> world" where
  "deleteUser_pg w i =
     (let w1 = (send (DeleteSettings i) w)\<lparr>db := deleteSettings i (db w)\<rparr>;
          w2 = send (DeleteUsers i) w1
      in case deleteUsers i (db w2) of
           Inl err \<Rightarrow> (Inl err, w2)
         | Inr d \<Rightarrow>
             (Inr \<lparr>dp_success = True, dp_deletedId = i\<rparr>,
              w2\<lparr>db := d, cache := (cache w2)(userKey i := None)\<rparr>))"

fun bulkLoop_pg ::
  "(nat \<Rightarrow> draw) \<Rightarrow> nat \<Rightarrow> world \<Rightarrow> string list \<Rightarrow> nat \<Rightarrow> bulk_input list
     \<Rightarrow> (string list \<times> nat) \<times> world" where
  "bulkLoop_pg env n w failedUserIds updatedCount [] = ((failedUserIds, updatedCount), w)"
| "bulkLoop_pg env n w failedUserIds updatedCount (u # us) =
     (let w1 = send (UpsertSetting (bi_userId u) (bi_key u) (bi_value u)) w in
      case upsertSetting (uuid (env n)) (now_ins (env n)) (now_ins (env n))
             (bi_userId u) (bi_key u) (bi_value u) (db w1) of
        Inr (r, d) \<Rightarrow>
          bulkLoop_pg env (Suc n)
            (w1\<lparr>db := d, cache := (cache w1)(userKey (bi_userId u) := None)\<rparr>)
            failedUserIds (updatedCount + 1) us
      | Inl err \<Rightarrow>
          bulkLoop_pg env (Suc n) w1 (failedUserIds @ [bi_userId u]) updatedCount us)"

definition bulkUpdateSettings_pg ::
  "(nat \<Rightarrow> draw) \<Rightarrow> world \<Rightarrow> bulk_input list \<Rightarrow> bulk_payload \<times> world" where
  "bulkUpdateSettings_pg env w updates =
     (case bulkLoop_pg env 0 w [] 0 updates of
        ((failedUserIds, updatedCount), w') \<Rightarrow>
          (\<lparr>bp_success = (length failedUserIds = 0), bp_updatedCount = updatedCount,
            bp_failedUserIds = failedUserIds\<rparr>, w'))"

subsection \<open>Notions the properties are stated with\<close>

text \<open>The uniqueness constraint of the settings table on \<^verbatim>\<open>(user_id, setting_key)\<close>.\<close>

definition uniqueSettings :: "database \<Rightarrow> bool" where
  "uniqueSettings d = distinct (map (\<lambda>r. (s_user_id r, s_setting_key r)) (settings d))"

text \<open>
  The tables after a run of upsert statements, one per triple and in their order, a
  rejected statement leaving the tables as they are; \<open>tu\<close> selects the timestamp of the
  update branch from a draw. The loops of the four mutations are related to it below.
\<close>

fun upsertAll :: "(nat \<Rightarrow> draw) \<Rightarrow> (draw \<Rightarrow> int) \<Rightarrow> nat \<Rightarrow> database \<Rightarrow> bulk_input list \<Rightarrow> database" where
  "upsertAll env tu n d [] = d"
| "upsertAll env tu n d (u # us) =
     (case upsertSetting (uuid (env n)) (now_ins (env n)) (tu (env n))
             (bi_userId u) (bi_key u) (bi_value u) d of
        Inl err \<Rightarrow> upsertAll env tu (Suc n) d us
      | Inr (r, d') \<Rightarrow> upsertAll env tu (Suc n) d' us)"

text \<open>The triple writes the setting \<open>(uid, k)\<close>.\<close>

definition targets :: "string \<Rightarrow> string \<Rightarrow> bulk_input \<Rightarrow> bool" where
  "targets uid k u = (bi_userId u = uid \<and> bi_key u = k)"

text \<open>The statement a mutation sends for a triple.\<close>

definition upsertOf :: "bulk_input \<Rightarrow> stmt" where
  "upsertOf u = UpsertSetting (bi_userId u) (bi_key u) (bi_value u)"

text \<open>An entry of \<open>updateSettings\<close> with the user it is written for.\<close>

definition asTriple :: "string \<Rightarrow> setting_input \<Rightarrow> bulk_input" where
  "asTriple userId e = \<lparr>bi_userId = userId, bi_key = si_key e, bi_value = si_value e\<rparr>"

text \<open>The three triples of the partial-failure example: two for \<open>U1\<close> around one for \<open>bad\<close>.\<close>

definition specExample :: "string \<Rightarrow> string \<Rightarrow> bulk_input list" where
  "specExample U1 bad =
     [\<lparr>bi_userId = U1, bi_key = ''a'', bi_value = ''1''\<rparr>,
      \<lparr>bi_userId = bad, bi_key = ''b'', bi_value = ''2''\<rparr>,
      \<lparr>bi_userId = U1, bi_key = ''c'', bi_value = ''3''\<rparr>]"

text \<open>A row for \<open>(uid, k)\<close> with value \<open>v\<close> is in the settings table.\<close>

definition persisted :: "database \<Rightarrow> string \<Rightarrow> string \<Rightarrow> string \<Rightarrow> bool" where
  "persisted d uid k v =
     (filter (\<lambda>r. conflictTarget uid k r \<and> s_setting_value r = v) (settings d) \<noteq> [])"

text \<open>The columns of a settings row that an upsert's update branch does not assign.\<close>

definition fixedColumns :: "setting_row \<Rightarrow> string \<times> string \<times> string \<times> string option" where
  "fixedColumns r = (s_id r, s_user_id r, s_setting_key r, s_updated_by r)"

text \<open>
  From \<open>d\<close> to \<open>d'\<close> the rows of \<open>d\<close> keep their place and their fixed columns, and the rows
  added behind them have a null updated-by.
\<close>

definition keepsUpdaters :: "database \<Rightarrow> database \<Rightarrow> bool" where
  "keepsUpdaters d d' =
     (map fixedColumns (take (length (settings d)) (settings d')) = map fixedColumns (settings d)
      \<and> list_all (\<lambda>r. s_updated_by r = None) (drop (length (settings d)) (settings d')))"


subsection \<open>A sample store\<close>

definition sampleEnv :: "nat \<Rightarrow> draw" where
  "sampleEnv n = \<lparr>uuid = replicate (Suc n) CHR ''x'', now_ins = 1000 + int n, now_upd = 2000 + int n\<rparr>"

definition alice :: user_row where
  "alice = \<lparr>u_id = ''U1'', u_username = ''alice'', u_email = ''alice@example.org'',
            u_role = MEMBER, u_created_at = 500\<rparr>"

definition sampleWorld :: world where
  "sampleWorld = \<lparr>db = \<lparr>users = [alice], settings = [], activity_log = []\<rparr>,
                  cache = Map.empty, issued = []\<rparr>"





definition auditedWorld :: world where
  "auditedWorld =
     \<lparr>db = \<lparr>users = [alice],
            settings = [\<lparr>s_id = ''s1'', s_user_id = ''U1'', s_setting_key = ''theme'',
                         s_setting_value = ''dark'', s_updated_at = 600, s_updated_by = None\<rparr>],
            activity_log = [\<lparr>a_id = ''a1'', a_user_id = ''U1'', a_action = ''login'',
                             a_timestamp = 700, a_metadata = None\<rparr>]\<rparr>,
      cache = Map.empty, issued = []\<rparr>"

section \<open>Properties of the store's statements\<close>

lemma upsert_rejected_iff:
  "(\<exists>e. upsertSetting i t t' uid k v d = Inl e) \<longleftrightarrow> selectUserById uid d = []"
  by (auto simp: upsertSetting_def Let_def split: list.splits)

lemma upsert_users:
  "upsertSetting i t t' uid k v d = Inr (r, d') \<Longrightarrow> users d' = users d \<and> activity_log d' = activity_log d"
  by (auto simp: upsertSetting_def Let_def split: list.splits if_splits)

lemma upsert_select:
  "upsertSetting i t t' uid k v d = Inr (r, d') \<Longrightarrow> selectUserById j d' = selectUserById j d"
  by (simp add: selectUserById_def upsert_users)

lemma upsert_keys:
  "upsertSetting i t t' uid k v d = Inr (r, d') \<Longrightarrow>
   map (\<lambda>r. (s_user_id r, s_setting_key r)) (settings d') =
     (if filter (conflictTarget uid k) (settings d) = []
      then map (\<lambda>r. (s_user_id r, s_setting_key r)) (settings d) @ [(uid, k)]
      else map (\<lambda>r. (s_user_id r, s_setting_key r)) (settings d))"
  by (auto simp: upsertSetting_def Let_def  split: list.splits if_splits)

lemma upsert_unique:
  assumes "upsertSetting i t t' uid k v d = Inr (r, d')" "uniqueSettings d"
  shows "uniqueSettings d'"
proof (cases "filter (conflictTarget uid k) (settings d) = []")
  case True
  then have "(uid, k) \<notin> set (map (\<lambda>r. (s_user_id r, s_setting_key r)) (settings d))"
    by (auto simp: filter_empty_conv conflictTarget_def)
  with assms True show ?thesis
    by (simp add: uniqueSettings_def upsert_keys)
next
  case False
  with assms show ?thesis by (simp add: uniqueSettings_def upsert_keys)
qed

lemma filter_upd_target:
  "filter (conflictTarget uid k) (map (\<lambda>r. if conflictTarget uid k r then r\<lparr>s_setting_value := v, s_updated_at := t\<rparr> else r) xs)
   = map (\<lambda>r. r\<lparr>s_setting_value := v, s_updated_at := t\<rparr>) (filter (conflictTarget uid k) xs)"
  by (induction xs) (auto simp: conflictTarget_def)

lemma filter_upd_other:
  "(uid', k') \<noteq> (uid, k) \<Longrightarrow>
   filter (conflictTarget uid' k') (map (\<lambda>r. if conflictTarget uid k r then r\<lparr>s_setting_value := v, s_updated_at := t\<rparr> else r) xs)
   = filter (conflictTarget uid' k') xs"
  by (induction xs) (auto simp: conflictTarget_def)

lemma upsert_settings:
  assumes "upsertSetting i t t' uid k v d = Inr (r, d')"
  shows "settings d' =
    (if filter (conflictTarget uid k) (settings d) = []
     then settings d @ [\<lparr>s_id = i, s_user_id = uid, s_setting_key = k,
                       s_setting_value = v, s_updated_at = t, s_updated_by = None\<rparr>]
     else map (\<lambda>r. if conflictTarget uid k r then r\<lparr>s_setting_value := v, s_updated_at := t'\<rparr> else r) (settings d))"
  using assms
  by (auto simp: upsertSetting_def Let_def split: list.splits if_splits)

lemma upsert_target:
  assumes "upsertSetting i t t' uid k v d = Inr (r, d')"
  shows "filter (conflictTarget uid k) (settings d') \<noteq> []"
    and "\<forall>x \<in> set (filter (conflictTarget uid k) (settings d')). s_setting_value x = v"
proof -
  show "filter (conflictTarget uid k) (settings d') \<noteq> []"
    by (simp add: upsert_settings[OF assms] filter_upd_target) (simp add: conflictTarget_def)
  show "\<forall>x \<in> set (filter (conflictTarget uid k) (settings d')). s_setting_value x = v"
    unfolding upsert_settings[OF assms]
    by (cases "filter (conflictTarget uid k) (settings d) = []")
       (auto simp: filter_upd_target filter_empty_conv conflictTarget_def)
qed

lemma upsert_other:
  assumes "upsertSetting i t t' uid k v d = Inr (r, d')" "(uid', k') \<noteq> (uid, k)"
  shows "filter (conflictTarget uid' k') (settings d') = filter (conflictTarget uid' k') (settings d)"
proof (cases "filter (conflictTarget uid k) (settings d) = []")
  case True
  have "\<not> conflictTarget uid' k' \<lparr>s_id = i, s_user_id = uid, s_setting_key = k,
           s_setting_value = v, s_updated_at = t, s_updated_by = None\<rparr>"
    using assms(2) by (auto simp: conflictTarget_def)
  with True show ?thesis by (simp add: upsert_settings[OF assms(1)])
next
  case False
  then show ?thesis by (simp add: upsert_settings[OF assms(1)] filter_upd_other[OF assms(2)])
qed

section \<open>Properties of a run of upserts\<close>

lemma send_simps [simp]:
  "db (send q w) = db w" "cache (send q w) = cache w" "issued (send q w) = issued w @ [q]"
  by (simp_all add: send_def)

lemma upsertAll_users:
  "users (upsertAll env tu n d us) = users d \<and> activity_log (upsertAll env tu n d us) = activity_log d"
  by (induction us arbitrary: n d) (auto split: sum.splits dest: upsert_users)

lemma upsertAll_select: "selectUserById j (upsertAll env tu n d us) = selectUserById j d"
  by (simp add: selectUserById_def upsertAll_users)

lemma upsertAll_unique: "uniqueSettings d \<Longrightarrow> uniqueSettings (upsertAll env tu n d us)"
  by (induction us arbitrary: n d) (auto split: sum.splits dest: upsert_unique)

lemma upsertAll_untouched:
  "filter (targets uid k) us = [] \<Longrightarrow>
   filter (conflictTarget uid k) (settings (upsertAll env tu n d us)) =
   filter (conflictTarget uid k) (settings d)"
proof (induction us arbitrary: n d)
  case Nil
  show ?case by simp
next
  case (Cons u us)
  then have nt: "\<not> targets uid k u" and rest: "filter (targets uid k) us = []"
    by (auto split: if_splits)
  show ?case
  proof (cases "upsertSetting (uuid (env n)) (now_ins (env n)) (tu (env n)) (bi_userId u) (bi_key u) (bi_value u) d")
    case (Inl e)
    then show ?thesis using Cons.IH[OF rest, where n="Suc n" and d=d] by simp
  next
    case (Inr p)
    obtain r d' where p: "p = (r, d')" by (cases p)
    have "(uid, k) \<noteq> (bi_userId u, bi_key u)" using nt by (auto simp: targets_def)
    then have "filter (conflictTarget uid k) (settings d') = filter (conflictTarget uid k) (settings d)"
      using Inr p by (intro upsert_other[where uid="bi_userId u" and k="bi_key u"]) auto
    then show ?thesis using Inr p Cons.IH[OF rest, where n="Suc n" and d=d'] by simp
  qed
qed

lemma upsertAll_last:
  assumes "selectUserById uid d \<noteq> []" "filter (targets uid k) us \<noteq> []"
  shows "filter (conflictTarget uid k) (settings (upsertAll env tu n d us)) \<noteq> [] \<and>
         (\<forall>x \<in> set (filter (conflictTarget uid k) (settings (upsertAll env tu n d us))).
            s_setting_value x = bi_value (last (filter (targets uid k) us)))"
  using assms
proof (induction us arbitrary: n d)
  case Nil
  then show ?case by simp
next
  case (Cons u us)
  let ?up = "upsertSetting (uuid (env n)) (now_ins (env n)) (tu (env n)) (bi_userId u) (bi_key u) (bi_value u) d"
  show ?case
  proof (cases "filter (targets uid k) us = []")
    case False
    have last: "last (filter (targets uid k) (u # us)) = last (filter (targets uid k) us)"
      using False by simp
    show ?thesis
    proof (cases ?up)
      case (Inl e)
      then show ?thesis using Cons.IH[OF Cons.prems(1) False, where n="Suc n"] last by simp
    next
      case (Inr p)
      obtain r d' where p: "p = (r, d')" by (cases p)
      have "selectUserById uid d' \<noteq> []" using Inr p Cons.prems(1) upsert_select[of _ _ _ _ _ _ d r d' uid] by simp
      from Cons.IH[OF this False, where n="Suc n"] show ?thesis using Inr p last by simp
    qed
  next
    case True
    with Cons.prems(2) have t: "targets uid k u" by (auto split: if_splits)
    then have u: "bi_userId u = uid" "bi_key u = k" by (auto simp: targets_def)
    have last: "last (filter (targets uid k) (u # us)) = u" using True t by simp
    from Cons.prems(1) u upsert_rejected_iff[of "uuid (env n)" "now_ins (env n)" "tu (env n)" uid k "bi_value u" d]
    obtain p where Inr: "?up = Inr p" by (cases ?up) auto
    obtain r d' where p: "p = (r, d')" by (cases p)
    have up: "upsertSetting (uuid (env n)) (now_ins (env n)) (tu (env n)) uid k (bi_value u) d = Inr (r, d')"
      using Inr p u by simp
    have "filter (conflictTarget uid k) (settings (upsertAll env tu n d (u # us))) =
          filter (conflictTarget uid k) (settings d')"
      using Inr p upsertAll_untouched[OF True, of env tu "Suc n" d'] by simp
    then show ?thesis using upsert_target[OF up] last by simp
  qed
qed

lemma unique_target:
  assumes "uniqueSettings d"
  shows "length (filter (conflictTarget uid k) (settings d)) \<le> 1"
proof -
  have "distinct (map (\<lambda>r. (s_user_id r, s_setting_key r)) xs) \<Longrightarrow>
        length (filter (conflictTarget uid k) xs) \<le> 1" for xs
  proof (induction xs)
    case Nil
    show ?case by simp
  next
    case (Cons x xs)
    show ?case
    proof (cases "conflictTarget uid k x")
      case True
      then have "(uid, k) \<notin> (\<lambda>r. (s_user_id r, s_setting_key r)) ` set xs"
        using Cons.prems by (auto simp: conflictTarget_def)
      then have "filter (conflictTarget uid k) xs = []"
        by (auto simp: filter_empty_conv conflictTarget_def)
      then show ?thesis using True by simp
    next
      case False
      then show ?thesis using Cons by simp
    qed
  qed
  then show ?thesis using assms by (simp add: uniqueSettings_def)
qed

section \<open>The loops of the mutations\<close>

lemma asTriple_simps [simp]:
  "bi_userId (asTriple userId e) = userId" "bi_key (asTriple userId e) = si_key e"
  "bi_value (asTriple userId e) = si_value e"
  by (simp_all add: asTriple_def)

lemma upsert_returned:
  assumes "upsertSetting i t t' uid k v d = Inr (r, d')"
  shows "s_user_id r = uid \<and> s_setting_key r = k \<and> s_setting_value r = v"
proof (cases "filter (conflictTarget uid k) (settings d)")
  case Nil
  with assms show ?thesis by (auto simp: upsertSetting_def Let_def split: if_splits)
next
  case (Cons old rest)
  then have "old \<in> set (filter (conflictTarget uid k) (settings d))" by simp
  then have "conflictTarget uid k old" by simp
  with assms Cons show ?thesis
    by (auto simp: upsertSetting_def Let_def conflictTarget_def split: if_splits)
qed

lemma bulkLoop_kysely_run:
  "bulkLoop_kysely env n w f c us = ((f', c'), w') \<Longrightarrow>
     f' = f @ map bi_userId (filter (\<lambda>u. selectUserById (bi_userId u) (db w) = []) us) \<and>
     c' = c + length (filter (\<lambda>u. selectUserById (bi_userId u) (db w) \<noteq> []) us) \<and>
     db w' = upsertAll env now_upd n (db w) us \<and>
     issued w' = issued w @ map upsertOf us \<and>
     cache w' = cache w"
proof (induction us arbitrary: n w f c)
  case Nil
  then show ?case by simp
next
  case (Cons u us)
  let ?w1 = "send (UpsertSetting (bi_userId u) (bi_key u) (bi_value u)) w"
  let ?up = "upsertSetting (uuid (env n)) (now_ins (env n)) (now_upd (env n))
               (bi_userId u) (bi_key u) (bi_value u) (db w)"
  show ?case
  proof (cases ?up)
    case (Inl e)
    then have no: "selectUserById (bi_userId u) (db w) = []"
      using upsert_rejected_iff by blast
    from Cons.prems Inl
    have "bulkLoop_kysely env (Suc n) ?w1 (f @ [bi_userId u]) c us = ((f', c'), w')"
      by simp
    from Cons.IH[OF this] Inl no show ?thesis by (simp add: upsertOf_def)
  next
    case (Inr p)
    obtain r d where p: "p = (r, d)" by (cases p)
    have up: "?up = Inr (r, d)" using Inr p by simp
    then have yes: "selectUserById (bi_userId u) (db w) \<noteq> []"
      using upsert_rejected_iff[of "uuid (env n)" "now_ins (env n)" "now_upd (env n)" "bi_userId u" "bi_key u" "bi_value u" "db w"] by auto
    from Cons.prems up
    have "bulkLoop_kysely env (Suc n) (?w1\<lparr>db := d\<rparr>) f (c + 1) us = ((f', c'), w')"
      by simp
    from Cons.IH[OF this] up yes show ?thesis
      by (simp add: upsertOf_def upsert_select[OF up])
  qed
qed

lemma bulkLoop_pg_run:
  "bulkLoop_pg env n w f c us = ((f', c'), w') \<Longrightarrow>
     f' = f @ map bi_userId (filter (\<lambda>u. selectUserById (bi_userId u) (db w) = []) us) \<and>
     c' = c + length (filter (\<lambda>u. selectUserById (bi_userId u) (db w) \<noteq> []) us) \<and>
     db w' = upsertAll env now_ins n (db w) us \<and>
     issued w' = issued w @ map upsertOf us"
proof (induction us arbitrary: n w f c)
  case Nil
  then show ?case by simp
next
  case (Cons u us)
  let ?w1 = "send (UpsertSetting (bi_userId u) (bi_key u) (bi_value u)) w"
  let ?up = "upsertSetting (uuid (env n)) (now_ins (env n)) (now_ins (env n))
               (bi_userId u) (bi_key u) (bi_value u) (db w)"
  show ?case
  proof (cases ?up)
    case (Inl e)
    then have no: "selectUserById (bi_userId u) (db w) = []"
      using upsert_rejected_iff by blast
    from Cons.prems Inl
    have "bulkLoop_pg env (Suc n) ?w1 (f @ [bi_userId u]) c us = ((f', c'), w')"
      by simp
    from Cons.IH[OF this] Inl no show ?thesis by (simp add: upsertOf_def)
  next
    case (Inr p)
    obtain r d where p: "p = (r, d)" by (cases p)
    have up: "?up = Inr (r, d)" using Inr p by simp
    then have yes: "selectUserById (bi_userId u) (db w) \<noteq> []"
      using upsert_rejected_iff[of "uuid (env n)" "now_ins (env n)" "now_ins (env n)" "bi_userId u" "bi_key u" "bi_value u" "db w"] by auto
    from Cons.prems up
    have "bulkLoop_pg env (Suc n)
            (?w1\<lparr>db := d, cache := (cache ?w1)(userKey (bi_userId u) := None)\<rparr>) f (c + 1) us
          = ((f', c'), w')"
      by simp
    from Cons.IH[OF this] up yes show ?thesis
      by (simp add: upsertOf_def upsert_select[OF up])
  qed
qed

lemma updateLoop_kysely_run:
  "selectUserById userId (db w) \<noteq> [] \<Longrightarrow>
   \<exists>vs w'. updateLoop_kysely env n userId w acc es = (Inr (acc @ vs), w') \<and>
     map sv_key vs = map si_key es \<and> map sv_value vs = map si_value es \<and>
     map sv_updatedById vs = replicate (length es) None \<and>
     db w' = upsertAll env now_upd n (db w) (map (asTriple userId) es) \<and>
     issued w' = issued w @ map (upsertOf \<circ> asTriple userId) es \<and>
     cache w' = cache w"
proof (induction es arbitrary: n w acc)
  case Nil
  then show ?case by simp
next
  case (Cons e es)
  let ?w1 = "send (UpsertSetting userId (si_key e) (si_value e)) w"
  let ?up = "upsertSetting (uuid (env n)) (now_ins (env n)) (now_upd (env n))
               userId (si_key e) (si_value e) (db w)"
  from Cons.prems upsert_rejected_iff[of "uuid (env n)" "now_ins (env n)" "now_upd (env n)" userId "si_key e" "si_value e" "db w"]
  obtain p where "?up = Inr p" by (cases ?up) auto
  then obtain r d where up: "?up = Inr (r, d)" by (cases p) auto
  have r: "s_setting_key r = si_key e" "s_setting_value r = si_value e"
    using upsert_returned[OF up] by simp_all
  have "selectUserById userId (db (?w1\<lparr>db := d\<rparr>)) \<noteq> []"
    using Cons.prems by (simp add: upsert_select[OF up])
  from Cons.IH[OF this, where n="Suc n" and acc="acc @ [returnedView r]"]
  obtain vs w' where
    "updateLoop_kysely env (Suc n) userId (?w1\<lparr>db := d\<rparr>) (acc @ [returnedView r]) es
       = (Inr ((acc @ [returnedView r]) @ vs), w')"
    "map sv_key vs = map si_key es" "map sv_value vs = map si_value es"
    "map sv_updatedById vs = replicate (length es) None"
    "db w' = upsertAll env now_upd (Suc n) (db (?w1\<lparr>db := d\<rparr>)) (map (asTriple userId) es)"
    "issued w' = issued (?w1\<lparr>db := d\<rparr>) @ map (upsertOf \<circ> asTriple userId) es"
    "cache w' = cache (?w1\<lparr>db := d\<rparr>)"
    by blast
  then show ?case using up r
    by (intro exI[where x="returnedView r # vs"] exI[where x=w'])
       (simp add: upsertOf_def returnedView_def)
qed

lemma updateLoop_pg_run:
  "selectUserById userId (db w) \<noteq> [] \<Longrightarrow>
   \<exists>vs w'. updateLoop_pg env n userId w acc es = (Inr (acc @ vs), w') \<and>
     map sv_key vs = map si_key es \<and> map sv_value vs = map si_value es \<and>
     map sv_updatedById vs = replicate (length es) None \<and>
     db w' = upsertAll env now_ins n (db w) (map (asTriple userId) es) \<and>
     issued w' = issued w @ map (upsertOf \<circ> asTriple userId) es \<and>
     cache w' = cache w"
proof (induction es arbitrary: n w acc)
  case Nil
  then show ?case by simp
next
  case (Cons e es)
  let ?w1 = "send (UpsertSetting userId (si_key e) (si_value e)) w"
  let ?up = "upsertSetting (uuid (env n)) (now_ins (env n)) (now_ins (env n))
               userId (si_key e) (si_value e) (db w)"
  from Cons.prems upsert_rejected_iff[of "uuid (env n)" "now_ins (env n)" "now_ins (env n)" userId "si_key e" "si_value e" "db w"]
  obtain p where "?up = Inr p" by (cases ?up) auto
  then obtain r d where up: "?up = Inr (r, d)" by (cases p) auto
  have r: "s_setting_key r = si_key e" "s_setting_value r = si_value e"
    using upsert_returned[OF up] by simp_all
  have "selectUserById userId (db (?w1\<lparr>db := d\<rparr>)) \<noteq> []"
    using Cons.prems by (simp add: upsert_select[OF up])
  from Cons.IH[OF this, where n="Suc n" and acc="acc @ [returnedView r]"]
  obtain vs w' where
    "updateLoop_pg env (Suc n) userId (?w1\<lparr>db := d\<rparr>) (acc @ [returnedView r]) es
       = (Inr ((acc @ [returnedView r]) @ vs), w')"
    "map sv_key vs = map si_key es" "map sv_value vs = map si_value es"
    "map sv_updatedById vs = replicate (length es) None"
    "db w' = upsertAll env now_ins (Suc n) (db (?w1\<lparr>db := d\<rparr>)) (map (asTriple userId) es)"
    "issued w' = issued (?w1\<lparr>db := d\<rparr>) @ map (upsertOf \<circ> asTriple userId) es"
    "cache w' = cache (?w1\<lparr>db := d\<rparr>)"
    by blast
  then show ?case using up r
    by (intro exI[where x="returnedView r # vs"] exI[where x=w'])
       (simp add: upsertOf_def returnedView_def)
qed

lemmas sample_defs = sampleEnv_def alice_def sampleWorld_def
lemmas store_defs = selectUserById_def upsertSetting_def conflictTarget_def send_def
  executeTakeFirst_def Let_def

section \<open>bulkUpdateSettings\<close>

lemma bulkUpdateSettings_kysely_run:
  "fst (bulkUpdateSettings_kysely env w us) =
     \<lparr>bp_success = (filter (\<lambda>u. selectUserById (bi_userId u) (db w) = []) us = []),
      bp_updatedCount = length (filter (\<lambda>u. selectUserById (bi_userId u) (db w) \<noteq> []) us),
      bp_failedUserIds = map bi_userId (filter (\<lambda>u. selectUserById (bi_userId u) (db w) = []) us)\<rparr>"
  "db (snd (bulkUpdateSettings_kysely env w us)) = upsertAll env now_upd 0 (db w) us"
  "issued (snd (bulkUpdateSettings_kysely env w us)) = issued w @ map upsertOf us"
  "cache (snd (bulkUpdateSettings_kysely env w us)) = cache w"
proof -
  obtain f c w' where run: "bulkLoop_kysely env 0 w [] 0 us = ((f, c), w')"
    by (metis surj_pair)
  note facts = bulkLoop_kysely_run[OF run]
  show "fst (bulkUpdateSettings_kysely env w us) =
     \<lparr>bp_success = (filter (\<lambda>u. selectUserById (bi_userId u) (db w) = []) us = []),
      bp_updatedCount = length (filter (\<lambda>u. selectUserById (bi_userId u) (db w) \<noteq> []) us),
      bp_failedUserIds = map bi_userId (filter (\<lambda>u. selectUserById (bi_userId u) (db w) = []) us)\<rparr>"
    using facts by (simp add: bulkUpdateSettings_kysely_def run)
  show "db (snd (bulkUpdateSettings_kysely env w us)) = upsertAll env now_upd 0 (db w) us"
    using facts by (simp add: bulkUpdateSettings_kysely_def run)
  show "issued (snd (bulkUpdateSettings_kysely env w us)) = issued w @ map upsertOf us"
    using facts by (simp add: bulkUpdateSettings_kysely_def run)
  show "cache (snd (bulkUpdateSettings_kysely env w us)) = cache w"
    using facts by (simp add: bulkUpdateSettings_kysely_def run)
qed

lemma bulkUpdateSettings_pg_run:
  "fst (bulkUpdateSettings_pg env w us) =
     \<lparr>bp_success = (filter (\<lambda>u. selectUserById (bi_userId u) (db w) = []) us = []),
      bp_updatedCount = length (filter (\<lambda>u. selectUserById (bi_userId u) (db w) \<noteq> []) us),
      bp_failedUserIds = map bi_userId (filter (\<lambda>u. selectUserById (bi_userId u) (db w) = []) us)\<rparr>"
  "db (snd (bulkUpdateSettings_pg env w us)) = upsertAll env now_ins 0 (db w) us"
  "issued (snd (bulkUpdateSettings_pg env w us)) = issued w @ map upsertOf us"
proof -
  obtain f c w' where run: "bulkLoop_pg env 0 w [] 0 us = ((f, c), w')"
    by (metis surj_pair)
  note facts = bulkLoop_pg_run[OF run]
  show "fst (bulkUpdateSettings_pg env w us) =
     \<lparr>bp_success = (filter (\<lambda>u. selectUserById (bi_userId u) (db w) = []) us = []),
      bp_updatedCount = length (filter (\<lambda>u. selectUserById (bi_userId u) (db w) \<noteq> []) us),
      bp_failedUserIds = map bi_userId (filter (\<lambda>u. selectUserById (bi_userId u) (db w) = []) us)\<rparr>"
    using facts by (simp add: bulkUpdateSettings_pg_def run)
  show "db (snd (bulkUpdateSettings_pg env w us)) = upsertAll env now_ins 0 (db w) us"
    using facts by (simp add: bulkUpdateSettings_pg_def run)
  show "issued (snd (bulkUpdateSettings_pg env w us)) = issued w @ map upsertOf us"
    using facts by (simp add: bulkUpdateSettings_pg_def run)
qed

text \<open>
  Claim C9. For every list of triples the payload of \<open>bulkUpdateSettings\<close>, in both
  files, satisfies \<open>updatedCount + length failedUserIds = length updates\<close>: every triple
  adds one to the count or one entry to the failures, never both and never neither.
\<close>

theorem bulk_count_plus_failures:
  "bp_updatedCount (fst (bulkUpdateSettings_kysely env w updates))
     + length (bp_failedUserIds (fst (bulkUpdateSettings_kysely env w updates))) = length updates
   \<and> bp_updatedCount (fst (bulkUpdateSettings_pg env w updates))
     + length (bp_failedUserIds (fst (bulkUpdateSettings_pg env w updates))) = length updates"
proof -
  have "length (filter (\<lambda>u. selectUserById (bi_userId u) (db w) \<noteq> []) updates) + length (filter (\<lambda>u. selectUserById (bi_userId u) (db w) = []) updates)
        = length updates"
    using sum_length_filter_compl[of "\<lambda>u. selectUserById (bi_userId u) (db w) = []" updates] by simp
  then show ?thesis
    by (simp add: bulkUpdateSettings_kysely_run(1) bulkUpdateSettings_pg_run(1))
qed

text \<open>
  Claim C2, as stated: a user id with several failing triples appears at most once in
  \<open>failedUserIds\<close>. Both files push the id once per failing triple: with the absent user
  \<open>bad\<close> in two failing triples around a successful one, \<open>failedUserIds\<close> is
  \<open>[bad, bad]\<close>.
\<close>

theorem bulk_repeats_failed_id:
  "bp_failedUserIds (fst (bulkUpdateSettings_kysely sampleEnv sampleWorld
      [\<lparr>bi_userId = ''bad'', bi_key = ''a'', bi_value = ''1''\<rparr>,
       \<lparr>bi_userId = ''U1'', bi_key = ''k'', bi_value = ''v''\<rparr>,
       \<lparr>bi_userId = ''bad'', bi_key = ''b'', bi_value = ''2''\<rparr>])) = [''bad'', ''bad'']
   \<and> bp_failedUserIds (fst (bulkUpdateSettings_pg sampleEnv sampleWorld
      [\<lparr>bi_userId = ''bad'', bi_key = ''a'', bi_value = ''1''\<rparr>,
       \<lparr>bi_userId = ''U1'', bi_key = ''k'', bi_value = ''v''\<rparr>,
       \<lparr>bi_userId = ''bad'', bi_key = ''b'', bi_value = ''2''\<rparr>])) = [''bad'', ''bad'']"
  by (simp add: bulkUpdateSettings_kysely_def bulkUpdateSettings_pg_def sample_defs store_defs)

text \<open>
  Claim C2, amended. \<open>failedUserIds\<close> lists the user id of every failing triple, in input
  order and once per failing triple, so an id that fails several times is repeated;
  \<open>updatedCount\<close> is the number of successful triples. A triple fails exactly when its
  user has no row in the store at the call.
\<close>

theorem bulk_failures_listed:
  "bp_failedUserIds (fst (bulkUpdateSettings_kysely env w updates)) =
     map bi_userId (filter (\<lambda>u. selectUserById (bi_userId u) (db w) = []) updates)
   \<and> bp_updatedCount (fst (bulkUpdateSettings_kysely env w updates)) =
     length (filter (\<lambda>u. selectUserById (bi_userId u) (db w) \<noteq> []) updates)
   \<and> bp_failedUserIds (fst (bulkUpdateSettings_pg env w updates)) =
     map bi_userId (filter (\<lambda>u. selectUserById (bi_userId u) (db w) = []) updates)
   \<and> bp_updatedCount (fst (bulkUpdateSettings_pg env w updates)) =
     length (filter (\<lambda>u. selectUserById (bi_userId u) (db w) \<noteq> []) updates)"
  by (simp add: bulkUpdateSettings_kysely_run(1) bulkUpdateSettings_pg_run(1))

theorem bulk_failures_listed_witness:
  "bp_failedUserIds (fst (bulkUpdateSettings_kysely sampleEnv sampleWorld
      [\<lparr>bi_userId = ''bad'', bi_key = ''a'', bi_value = ''1''\<rparr>,
       \<lparr>bi_userId = ''U1'', bi_key = ''k'', bi_value = ''v''\<rparr>])) = [''bad'']
   \<and> bp_updatedCount (fst (bulkUpdateSettings_pg sampleEnv sampleWorld
      [\<lparr>bi_userId = ''bad'', bi_key = ''a'', bi_value = ''1''\<rparr>,
       \<lparr>bi_userId = ''U1'', bi_key = ''k'', bi_value = ''v''\<rparr>])) = 1"
  using bulk_failures_listed[of sampleEnv sampleWorld
      "[\<lparr>bi_userId = ''bad'', bi_key = ''a'', bi_value = ''1''\<rparr>,
       \<lparr>bi_userId = ''U1'', bi_key = ''k'', bi_value = ''v''\<rparr>]"]
  by (simp add: sample_defs selectUserById_def)

section \<open>updateSettings, and the claims on written rows\<close>

lemma updateSettings_kysely_missing:
  "selectUserById userId (db w) = [] \<Longrightarrow>
   updateSettings_kysely env w userId es = (Inl UserNotFound, send (SelectUser userId) w)"
  by (simp add: updateSettings_kysely_def executeTakeFirst_def Let_def)

lemma updateSettings_pg_missing:
  "selectUserById userId (db w) = [] \<Longrightarrow>
   updateSettings_pg env w userId es = (Inl UserNotFound, send (SelectUser userId) w)"
  by (simp add: updateSettings_pg_def Let_def)

lemma updateSettings_kysely_run:
  assumes "selectUserById userId (db w) = user # rest"
  shows "\<exists>vs w'. updateSettings_kysely env w userId es =
            (Inr \<lparr>sp_success = True, sp_user = user, sp_settings = vs\<rparr>, w') \<and>
     map sv_key vs = map si_key es \<and> map sv_value vs = map si_value es \<and>
     map sv_updatedById vs = replicate (length es) None \<and>
     db w' = upsertAll env now_upd 0 (db w) (map (asTriple userId) es) \<and>
     issued w' = issued w @ SelectUser userId # map (upsertOf \<circ> asTriple userId) es \<and>
     cache w' = cache w"
proof -
  have "selectUserById userId (db (send (SelectUser userId) w)) \<noteq> []"
    using assms by simp
  from updateLoop_kysely_run[OF this, of env 0 "[]" es]
  obtain vs w' where
    "updateLoop_kysely env 0 userId (send (SelectUser userId) w) [] es = (Inr vs, w')"
    "map sv_key vs = map si_key es" "map sv_value vs = map si_value es"
    "map sv_updatedById vs = replicate (length es) None"
    "db w' = upsertAll env now_upd 0 (db w) (map (asTriple userId) es)"
    "issued w' = issued w @ SelectUser userId # map (upsertOf \<circ> asTriple userId) es"
    "cache w' = cache w"
    by auto
  then show ?thesis using assms
    by (intro exI[where x=vs] exI[where x=w'])
       (simp add: updateSettings_kysely_def executeTakeFirst_def Let_def)
qed

lemma updateSettings_pg_run:
  assumes "selectUserById userId (db w) = user # rest"
  shows "\<exists>vs w'. updateSettings_pg env w userId es =
            (Inr \<lparr>sp_success = True, sp_user = user, sp_settings = vs\<rparr>, w') \<and>
     map sv_key vs = map si_key es \<and> map sv_value vs = map si_value es \<and>
     map sv_updatedById vs = replicate (length es) None \<and>
     db w' = upsertAll env now_ins 0 (db w) (map (asTriple userId) es) \<and>
     issued w' = issued w @ SelectUser userId # map (upsertOf \<circ> asTriple userId) es \<and>
     cache w' = (cache w)(userKey userId := None)"
proof -
  have "selectUserById userId (db (send (SelectUser userId) w)) \<noteq> []"
    using assms by simp
  from updateLoop_pg_run[OF this, of env 0 "[]" es]
  obtain vs w1 where
    "updateLoop_pg env 0 userId (send (SelectUser userId) w) [] es = (Inr vs, w1)"
    "map sv_key vs = map si_key es" "map sv_value vs = map si_value es"
    "map sv_updatedById vs = replicate (length es) None"
    "db w1 = upsertAll env now_ins 0 (db w) (map (asTriple userId) es)"
    "issued w1 = issued w @ SelectUser userId # map (upsertOf \<circ> asTriple userId) es"
    "cache w1 = cache w"
    by auto
  then show ?thesis using assms
    by (intro exI[where x=vs] exI[where x="w1\<lparr>cache := (cache w1)(userKey userId := None)\<rparr>"])
       (simp add: updateSettings_pg_def Let_def)
qed

text \<open>
  Claim C3. When no user row has the given id, \<open>updateSettings\<close> fails as a whole with
  the "User not found" error in both files, the tables (and the cache of part_000) are
  as before the call, and the only statement sent is the lookup of the user: no settings
  row is written.
\<close>

theorem updateSettings_unknown_user:
  assumes "selectUserById userId (db w) = []"
  shows "fst (updateSettings_kysely env w userId inputs) = Inl UserNotFound
       \<and> db (snd (updateSettings_kysely env w userId inputs)) = db w
       \<and> issued (snd (updateSettings_kysely env w userId inputs)) = issued w @ [SelectUser userId]
       \<and> fst (updateSettings_pg env w userId inputs) = Inl UserNotFound
       \<and> db (snd (updateSettings_pg env w userId inputs)) = db w
       \<and> cache (snd (updateSettings_pg env w userId inputs)) = cache w
       \<and> issued (snd (updateSettings_pg env w userId inputs)) = issued w @ [SelectUser userId]"
  using assms by (simp add: updateSettings_kysely_missing updateSettings_pg_missing)

theorem updateSettings_unknown_user_witness:
  "fst (updateSettings_kysely sampleEnv sampleWorld ''ghost''
          [\<lparr>si_key = ''theme'', si_value = ''dark''\<rparr>]) = Inl UserNotFound
       \<and> db (snd (updateSettings_kysely sampleEnv sampleWorld ''ghost''
          [\<lparr>si_key = ''theme'', si_value = ''dark''\<rparr>])) = db sampleWorld
       \<and> issued (snd (updateSettings_kysely sampleEnv sampleWorld ''ghost''
          [\<lparr>si_key = ''theme'', si_value = ''dark''\<rparr>])) = issued sampleWorld @ [SelectUser ''ghost'']
       \<and> fst (updateSettings_pg sampleEnv sampleWorld ''ghost''
          [\<lparr>si_key = ''theme'', si_value = ''dark''\<rparr>]) = Inl UserNotFound
       \<and> db (snd (updateSettings_pg sampleEnv sampleWorld ''ghost''
          [\<lparr>si_key = ''theme'', si_value = ''dark''\<rparr>])) = db sampleWorld
       \<and> cache (snd (updateSettings_pg sampleEnv sampleWorld ''ghost''
          [\<lparr>si_key = ''theme'', si_value = ''dark''\<rparr>])) = cache sampleWorld
       \<and> issued (snd (updateSettings_pg sampleEnv sampleWorld ''ghost''
          [\<lparr>si_key = ''theme'', si_value = ''dark''\<rparr>])) = issued sampleWorld @ [SelectUser ''ghost'']"
proof -
  have "selectUserById ''ghost'' (db sampleWorld) = []"
    by (simp add: selectUserById_def sample_defs)
  then show ?thesis by (rule updateSettings_unknown_user)
qed

text \<open>
  Claim C8. For an existing user, \<open>updateSettings\<close> with an empty list returns
  \<open>success = true\<close> with the user and an empty settings list, and leaves every table as it
  was: the user's row (role and creation timestamp included) is untouched and no
  settings statement is sent.
\<close>

theorem updateSettings_empty_list:
  assumes "selectUserById u (db w) = user # rest"
  shows "fst (updateSettings_kysely env w u []) =
           Inr \<lparr>sp_success = True, sp_user = user, sp_settings = []\<rparr>
       \<and> db (snd (updateSettings_kysely env w u [])) = db w
       \<and> issued (snd (updateSettings_kysely env w u [])) = issued w @ [SelectUser u]
       \<and> fst (updateSettings_pg env w u []) =
           Inr \<lparr>sp_success = True, sp_user = user, sp_settings = []\<rparr>
       \<and> db (snd (updateSettings_pg env w u [])) = db w
       \<and> issued (snd (updateSettings_pg env w u [])) = issued w @ [SelectUser u]"
  using assms
  by (simp add: updateSettings_kysely_def updateSettings_pg_def executeTakeFirst_def Let_def)

theorem updateSettings_empty_list_witness:
  "fst (updateSettings_kysely sampleEnv sampleWorld ''U1'' []) =
           Inr \<lparr>sp_success = True, sp_user = alice, sp_settings = []\<rparr>
       \<and> db (snd (updateSettings_kysely sampleEnv sampleWorld ''U1'' [])) = db sampleWorld
       \<and> issued (snd (updateSettings_kysely sampleEnv sampleWorld ''U1'' [])) = issued sampleWorld @ [SelectUser ''U1'']
       \<and> fst (updateSettings_pg sampleEnv sampleWorld ''U1'' []) =
           Inr \<lparr>sp_success = True, sp_user = alice, sp_settings = []\<rparr>
       \<and> db (snd (updateSettings_pg sampleEnv sampleWorld ''U1'' [])) = db sampleWorld
       \<and> issued (snd (updateSettings_pg sampleEnv sampleWorld ''U1'' [])) = issued sampleWorld @ [SelectUser ''U1'']"
proof -
  have "selectUserById ''U1'' (db sampleWorld) = alice # []"
    by (simp add: selectUserById_def sample_defs)
  then show ?thesis by (rule updateSettings_empty_list)
qed

lemma upsertAll_persisted:
  assumes "selectUserById uid d \<noteq> []" "filter (targets uid k) us \<noteq> []"
  shows "persisted (upsertAll env tu n d us) uid k (bi_value (last (filter (targets uid k) us)))"
proof -
  let ?rows = "filter (conflictTarget uid k) (settings (upsertAll env tu n d us))"
  from upsertAll_last[OF assms, of env tu n]
  have ne: "?rows \<noteq> []"
    and val: "\<forall>x \<in> set ?rows. s_setting_value x = bi_value (last (filter (targets uid k) us))"
    by blast+
  from ne obtain r where r: "r \<in> set ?rows" by (cases ?rows) auto
  with val have "s_setting_value r = bi_value (last (filter (targets uid k) us))" by blast
  with r show ?thesis by (auto simp: persisted_def filter_empty_conv)
qed

lemma upsertAll_exactly_one:
  assumes "selectUserById uid d \<noteq> []" "filter (targets uid k) us \<noteq> []" "uniqueSettings d"
  shows "\<exists>r. filter (conflictTarget uid k) (settings (upsertAll env tu n d us)) = [r] \<and>
              s_setting_value r = bi_value (last (filter (targets uid k) us))"
proof -
  let ?rows = "filter (conflictTarget uid k) (settings (upsertAll env tu n d us))"
  from upsertAll_last[OF assms(1,2), of env tu n]
  have ne: "?rows \<noteq> []"
    and val: "\<forall>x \<in> set ?rows. s_setting_value x = bi_value (last (filter (targets uid k) us))"
    by blast+
  have "length ?rows \<le> 1"
    by (rule unique_target) (rule upsertAll_unique[OF assms(3)])
  with ne obtain r where r: "?rows = [r]"
    by (cases ?rows) auto
  with val show ?thesis by simp
qed

lemma targets_asTriple:
  "filter (targets userId k) (map (asTriple userId) es) =
   map (asTriple userId) (filter (\<lambda>e. si_key e = k) es)"
  by (induction es) (auto simp: targets_def)

text \<open>
  Claim C6. For an existing user and a settings table that satisfies the uniqueness
  constraint, after \<open>updateSettings\<close> with a list in which key \<open>k\<close> occurs (once or
  several times) there is exactly one row for \<open>(userId, k)\<close>, its value is the value of
  the last entry with key \<open>k\<close>, and the table still satisfies the constraint.
\<close>

theorem updateSettings_last_write_wins:
  assumes "selectUserById userId (db w) \<noteq> []"
      and "uniqueSettings (db w)"
      and "filter (\<lambda>e. si_key e = k) inputs \<noteq> []"
  shows "(\<exists>p w' r. updateSettings_kysely env w userId inputs = (Inr p, w')
            \<and> filter (conflictTarget userId k) (settings (db w')) = [r]
            \<and> s_setting_value r = si_value (last (filter (\<lambda>e. si_key e = k) inputs))
            \<and> uniqueSettings (db w'))
       \<and> (\<exists>p w' r. updateSettings_pg env w userId inputs = (Inr p, w')
            \<and> filter (conflictTarget userId k) (settings (db w')) = [r]
            \<and> s_setting_value r = si_value (last (filter (\<lambda>e. si_key e = k) inputs))
            \<and> uniqueSettings (db w'))"
proof -
  let ?us = "map (asTriple userId) inputs"
  obtain user rest where u: "selectUserById userId (db w) = user # rest"
    using assms(1) by (cases "selectUserById userId (db w)") auto
  have ne: "filter (targets userId k) ?us \<noteq> []"
    using assms(3) by (simp add: targets_asTriple)
  have lastv: "bi_value (last (filter (targets userId k) ?us))
             = si_value (last (filter (\<lambda>e. si_key e = k) inputs))"
    using assms(3) by (simp add: targets_asTriple last_map)
  have one: "\<exists>r. filter (conflictTarget userId k) (settings (upsertAll env tu 0 (db w) ?us)) = [r] \<and>
              s_setting_value r = si_value (last (filter (\<lambda>e. si_key e = k) inputs))" for tu
    using upsertAll_exactly_one[OF assms(1) ne assms(2), of env tu 0] lastv by simp
  have uniq: "uniqueSettings (upsertAll env tu 0 (db w) ?us)" for tu
    by (rule upsertAll_unique[OF assms(2)])
  from updateSettings_kysely_run[OF u, of env inputs] one[of now_upd] uniq[of now_upd]
  have K: "\<exists>p w' r. updateSettings_kysely env w userId inputs = (Inr p, w')
            \<and> filter (conflictTarget userId k) (settings (db w')) = [r]
            \<and> s_setting_value r = si_value (last (filter (\<lambda>e. si_key e = k) inputs))
            \<and> uniqueSettings (db w')"
    by force
  from updateSettings_pg_run[OF u, of env inputs] one[of now_ins] uniq[of now_ins]
  have P: "\<exists>p w' r. updateSettings_pg env w userId inputs = (Inr p, w')
            \<and> filter (conflictTarget userId k) (settings (db w')) = [r]
            \<and> s_setting_value r = si_value (last (filter (\<lambda>e. si_key e = k) inputs))
            \<and> uniqueSettings (db w')"
    by force
  from K P show ?thesis by blast
qed

theorem updateSettings_last_write_wins_witness:
  "(\<exists>p w' r. updateSettings_kysely sampleEnv sampleWorld ''U1''
               [\<lparr>si_key = ''k'', si_value = ''a''\<rparr>, \<lparr>si_key = ''k'', si_value = ''b''\<rparr>] = (Inr p, w')
            \<and> filter (conflictTarget ''U1'' ''k'') (settings (db w')) = [r]
            \<and> s_setting_value r = ''b''
            \<and> uniqueSettings (db w'))
       \<and> (\<exists>p w' r. updateSettings_pg sampleEnv sampleWorld ''U1''
               [\<lparr>si_key = ''k'', si_value = ''a''\<rparr>, \<lparr>si_key = ''k'', si_value = ''b''\<rparr>] = (Inr p, w')
            \<and> filter (conflictTarget ''U1'' ''k'') (settings (db w')) = [r]
            \<and> s_setting_value r = ''b''
            \<and> uniqueSettings (db w'))"
proof -
  have h1: "selectUserById ''U1'' (db sampleWorld) \<noteq> []"
    by (simp add: selectUserById_def sample_defs)
  have h2: "uniqueSettings (db sampleWorld)"
    by (simp add: uniqueSettings_def sample_defs)
  have h3: "filter (\<lambda>e. si_key e = ''k'')
              [\<lparr>si_key = ''k'', si_value = ''a''\<rparr>, \<lparr>si_key = ''k'', si_value = ''b''\<rparr>] \<noteq> []"
    by simp
  from updateSettings_last_write_wins[OF h1 h2 h3, of sampleEnv] show ?thesis by simp
qed

text \<open>
  Claim C1. \<open>bulkUpdateSettings\<close> sends one upsert per triple, in the order of the
  input, whatever the outcome of the earlier ones; every triple whose user exists is
  persisted (with the value of the last triple for the same user and key), failures
  elsewhere in the list notwithstanding. In the example of the spec, with \<open>U1\<close> present and
  \<open>bad\<close> absent, the payload is \<open>success = false\<close>, \<open>updatedCount = 2\<close>,
  \<open>failedUserIds = [bad]\<close>, and both settings of \<open>U1\<close> are in the table.
\<close>

theorem bulkUpdateSettings_isolates_failures:
  "issued (snd (bulkUpdateSettings_kysely env w updates)) = issued w @ map upsertOf updates
   \<and> issued (snd (bulkUpdateSettings_pg env w updates)) = issued w @ map upsertOf updates
   \<and> (\<forall>u \<in> set updates. selectUserById (bi_userId u) (db w) \<noteq> [] \<longrightarrow>
        persisted (db (snd (bulkUpdateSettings_kysely env w updates))) (bi_userId u) (bi_key u)
          (bi_value (last (filter (targets (bi_userId u) (bi_key u)) updates)))
      \<and> persisted (db (snd (bulkUpdateSettings_pg env w updates))) (bi_userId u) (bi_key u)
          (bi_value (last (filter (targets (bi_userId u) (bi_key u)) updates))))
   \<and> (selectUserById U1 (db w) \<noteq> [] \<longrightarrow> selectUserById bad (db w) = [] \<longrightarrow>
        fst (bulkUpdateSettings_kysely env w (specExample U1 bad)) =
          \<lparr>bp_success = False, bp_updatedCount = 2, bp_failedUserIds = [bad]\<rparr>
      \<and> persisted (db (snd (bulkUpdateSettings_kysely env w (specExample U1 bad)))) U1 ''a'' ''1''
      \<and> persisted (db (snd (bulkUpdateSettings_kysely env w (specExample U1 bad)))) U1 ''c'' ''3''
      \<and> fst (bulkUpdateSettings_pg env w (specExample U1 bad)) =
          \<lparr>bp_success = False, bp_updatedCount = 2, bp_failedUserIds = [bad]\<rparr>
      \<and> persisted (db (snd (bulkUpdateSettings_pg env w (specExample U1 bad)))) U1 ''a'' ''1''
      \<and> persisted (db (snd (bulkUpdateSettings_pg env w (specExample U1 bad)))) U1 ''c'' ''3'')"
proof -
  have general: "persisted (upsertAll env tu 0 (db w) us) (bi_userId u) (bi_key u)
          (bi_value (last (filter (targets (bi_userId u) (bi_key u)) us)))"
    if "u \<in> set us" "selectUserById (bi_userId u) (db w) \<noteq> []" for tu u us
  proof -
    have "targets (bi_userId u) (bi_key u) u" by (simp add: targets_def)
    with that(1) have "filter (targets (bi_userId u) (bi_key u)) us \<noteq> []"
      by (auto simp: filter_empty_conv)
    from upsertAll_persisted[OF that(2) this] show ?thesis .
  qed
  have example: "persisted (upsertAll env tu 0 (db w) (specExample U1 bad)) U1 ''a'' ''1''
       \<and> persisted (upsertAll env tu 0 (db w) (specExample U1 bad)) U1 ''c'' ''3''"
    if "selectUserById U1 (db w) \<noteq> []" for tu
  proof -
    have a: "filter (targets U1 ''a'') (specExample U1 bad) =
               [\<lparr>bi_userId = U1, bi_key = ''a'', bi_value = ''1''\<rparr>]"
      and c: "filter (targets U1 ''c'') (specExample U1 bad) =
               [\<lparr>bi_userId = U1, bi_key = ''c'', bi_value = ''3''\<rparr>]"
      by (simp_all add: specExample_def targets_def)
    from upsertAll_persisted[OF that, of "''a''" "specExample U1 bad" env tu 0]
         upsertAll_persisted[OF that, of "''c''" "specExample U1 bad" env tu 0]
    show ?thesis by (simp add: a c)
  qed
  have payload: "\<lparr>bp_success = filter (\<lambda>u. selectUserById (bi_userId u) (db w) = []) (specExample U1 bad) = [],
         bp_updatedCount = length (filter (\<lambda>u. selectUserById (bi_userId u) (db w) \<noteq> []) (specExample U1 bad)),
         bp_failedUserIds = map bi_userId (filter (\<lambda>u. selectUserById (bi_userId u) (db w) = []) (specExample U1 bad))\<rparr>
       = \<lparr>bp_success = False, bp_updatedCount = 2, bp_failedUserIds = [bad]\<rparr>"
    if "selectUserById U1 (db w) \<noteq> []" "selectUserById bad (db w) = []"
    using that by (simp add: specExample_def)
  show ?thesis
    using general example payload
    by (simp add: bulkUpdateSettings_kysely_run bulkUpdateSettings_pg_run)
qed

theorem bulkUpdateSettings_isolates_failures_witness:
  "fst (bulkUpdateSettings_kysely sampleEnv sampleWorld (specExample ''U1'' ''bad'')) =
          \<lparr>bp_success = False, bp_updatedCount = 2, bp_failedUserIds = [''bad'']\<rparr>
      \<and> persisted (db (snd (bulkUpdateSettings_kysely sampleEnv sampleWorld (specExample ''U1'' ''bad'')))) ''U1'' ''a'' ''1''
      \<and> persisted (db (snd (bulkUpdateSettings_kysely sampleEnv sampleWorld (specExample ''U1'' ''bad'')))) ''U1'' ''c'' ''3''
      \<and> fst (bulkUpdateSettings_pg sampleEnv sampleWorld (specExample ''U1'' ''bad'')) =
          \<lparr>bp_success = False, bp_updatedCount = 2, bp_failedUserIds = [''bad'']\<rparr>
      \<and> persisted (db (snd (bulkUpdateSettings_pg sampleEnv sampleWorld (specExample ''U1'' ''bad'')))) ''U1'' ''a'' ''1''
      \<and> persisted (db (snd (bulkUpdateSettings_pg sampleEnv sampleWorld (specExample ''U1'' ''bad'')))) ''U1'' ''c'' ''3''"
proof -
  have h1: "selectUserById ''U1'' (db sampleWorld) \<noteq> []"
    by (simp add: selectUserById_def sample_defs)
  have h2: "selectUserById ''bad'' (db sampleWorld) = []"
    by (simp add: selectUserById_def sample_defs)
  from bulkUpdateSettings_isolates_failures[of sampleEnv sampleWorld "specExample ''U1'' ''bad''" "''U1''" "''bad''"]
    h1 h2
  show ?thesis by blast
qed

lemma upsert_frame:
  assumes "upsertSetting i t t' uid k v d = Inr (r, d')"
  shows "\<exists>new. map fixedColumns (settings d') = map fixedColumns (settings d) @ map fixedColumns new
             \<and> map s_updated_by new = replicate (length new) None"
proof (cases "filter (conflictTarget uid k) (settings d) = []")
  case True
  let ?r = "\<lparr>s_id = i, s_user_id = uid, s_setting_key = k,
             s_setting_value = v, s_updated_at = t, s_updated_by = None\<rparr>"
  have "settings d' = settings d @ [?r]" using True by (simp add: upsert_settings[OF assms])
  then show ?thesis by (intro exI[where x="[?r]"]) simp
next
  case False
  have "map fixedColumns (settings d') = map fixedColumns (settings d)"
    using False by (simp add: upsert_settings[OF assms] fixedColumns_def o_def if_distrib cong: if_cong)
  then show ?thesis by (intro exI[where x="[]"]) simp
qed

lemma upsertAll_frame:
  "\<exists>new. map fixedColumns (settings (upsertAll env tu n d us)) =
            map fixedColumns (settings d) @ map fixedColumns new
        \<and> map s_updated_by new = replicate (length new) None"
proof (induction us arbitrary: n d)
  case Nil
  show ?case by (intro exI[where x="[]"]) simp
next
  case (Cons u us)
  show ?case
  proof (cases "upsertSetting (uuid (env n)) (now_ins (env n)) (tu (env n)) (bi_userId u) (bi_key u) (bi_value u) d")
    case (Inl e)
    then show ?thesis using Cons.IH[where n="Suc n" and d=d] by simp
  next
    case (Inr p)
    obtain r d' where p: "p = (r, d')" by (cases p)
    from Inr p upsert_frame obtain new1 where
      1: "map fixedColumns (settings d') = map fixedColumns (settings d) @ map fixedColumns new1"
         "map s_updated_by new1 = replicate (length new1) None"
      by blast
    from Cons.IH[where n="Suc n" and d=d'] obtain new2 where
      2: "map fixedColumns (settings (upsertAll env tu (Suc n) d' us)) =
            map fixedColumns (settings d') @ map fixedColumns new2"
         "map s_updated_by new2 = replicate (length new2) None"
      by blast
    from 1 2 Inr p show ?thesis
      by (intro exI[where x="new1 @ new2"]) (simp add: replicate_add)
  qed
qed

lemma frame_keepsUpdaters:
  assumes "map fixedColumns (settings d') = map fixedColumns (settings d) @ map fixedColumns new"
      and "map s_updated_by new = replicate (length new) None"
  shows "keepsUpdaters d d'"
proof -
  have len: "length (settings d') = length (settings d) + length new"
    using arg_cong[OF assms(1), of length] by simp
  have "map fixedColumns (take (length (settings d)) (settings d')) =
        take (length (settings d)) (map fixedColumns (settings d'))"
    by (simp add: take_map)
  also have "\<dots> = map fixedColumns (settings d)" by (simp add: assms(1))
  finally have 1: "map fixedColumns (take (length (settings d)) (settings d')) = map fixedColumns (settings d)" .
  have ub: "s_updated_by = (\<lambda>c. snd (snd (snd c))) \<circ> fixedColumns"
    by (auto simp: fixedColumns_def)
  have "map s_updated_by (drop (length (settings d)) (settings d')) =
        map (\<lambda>c. snd (snd (snd c))) (drop (length (settings d)) (map fixedColumns (settings d')))"
    by (simp add: drop_map ub)
  also have "\<dots> = map s_updated_by new" by (simp add: assms(1) ub)
  finally have "map s_updated_by (drop (length (settings d)) (settings d')) = replicate (length new) None"
    using assms(2) by simp
  then have "\<forall>r \<in> set (drop (length (settings d)) (settings d')). s_updated_by r = None"
    by (metis (no_types, lifting) image_eqI list.set_map in_set_replicate)
  with 1 show ?thesis by (simp add: keepsUpdaters_def list_all_iff)
qed

lemma keepsUpdaters_refl: "keepsUpdaters d d"
  by (simp add: keepsUpdaters_def)

lemma upsertAll_keepsUpdaters: "keepsUpdaters d (upsertAll env tu n d us)"
  using upsertAll_frame[of env tu n d us] frame_keepsUpdaters by blast

lemma keepsUpdaters_all_null:
  assumes "keepsUpdaters d d'" "list_all (\<lambda>r. s_updated_by r = None) (settings d)"
  shows "list_all (\<lambda>r. s_updated_by r = None) (settings d')"
proof -
  let ?n = "length (settings d)"
  have ub: "s_updated_by = (\<lambda>c. snd (snd (snd c))) \<circ> fixedColumns"
    by (auto simp: fixedColumns_def)
  have "map fixedColumns (take ?n (settings d')) = map fixedColumns (settings d)"
    using assms(1) by (simp add: keepsUpdaters_def)
  then have "map (\<lambda>c. snd (snd (snd c))) (map fixedColumns (take ?n (settings d')))
           = map (\<lambda>c. snd (snd (snd c))) (map fixedColumns (settings d))"
    by (rule arg_cong)
  then have "map s_updated_by (take ?n (settings d')) = map s_updated_by (settings d)"
    by (simp add: ub)
  then have "set (map s_updated_by (take ?n (settings d'))) \<subseteq> {None}"
    using assms(2) by (auto simp: list_all_iff)
  then have 1: "list_all (\<lambda>r. s_updated_by r = None) (take ?n (settings d'))"
    by (auto simp: list_all_iff)
  have 2: "list_all (\<lambda>r. s_updated_by r = None) (drop ?n (settings d'))"
    using assms(1) by (simp add: keepsUpdaters_def)
  have "list_all (\<lambda>r. s_updated_by r = None) (take ?n (settings d') @ drop ?n (settings d'))"
    using 1 2 by (simp only: list_all_append)
  then show ?thesis by (simp only: append_take_drop_id)
qed

lemma updateSettings_kysely_db:
  "db (snd (updateSettings_kysely env w userId es)) =
     (if selectUserById userId (db w) = [] then db w
      else upsertAll env now_upd 0 (db w) (map (asTriple userId) es))"
proof (cases "selectUserById userId (db w)")
  case Nil
  then show ?thesis by (simp add: updateSettings_kysely_missing)
next
  case (Cons user rest)
  from updateSettings_kysely_run[OF Cons, of env es] Cons show ?thesis by auto
qed

lemma updateSettings_pg_db:
  "db (snd (updateSettings_pg env w userId es)) =
     (if selectUserById userId (db w) = [] then db w
      else upsertAll env now_ins 0 (db w) (map (asTriple userId) es))"
proof (cases "selectUserById userId (db w)")
  case Nil
  then show ?thesis by (simp add: updateSettings_pg_missing)
next
  case (Cons user rest)
  from updateSettings_pg_run[OF Cons, of env es] Cons show ?thesis by auto
qed

lemma updateSettings_kysely_views:
  "fst (updateSettings_kysely env w userId es) = Inr p \<Longrightarrow>
   map sv_updatedById (sp_settings p) = replicate (length es) None"
proof (cases "selectUserById userId (db w)")
  case Nil
  assume "fst (updateSettings_kysely env w userId es) = Inr p"
  with Nil show ?thesis by (simp add: updateSettings_kysely_missing)
next
  case (Cons user rest)
  assume "fst (updateSettings_kysely env w userId es) = Inr p"
  with updateSettings_kysely_run[OF Cons, of env es] show ?thesis by auto
qed

lemma updateSettings_pg_views:
  "fst (updateSettings_pg env w userId es) = Inr p \<Longrightarrow>
   map sv_updatedById (sp_settings p) = replicate (length es) None"
proof (cases "selectUserById userId (db w)")
  case Nil
  assume "fst (updateSettings_pg env w userId es) = Inr p"
  with Nil show ?thesis by (simp add: updateSettings_pg_missing)
next
  case (Cons user rest)
  assume "fst (updateSettings_pg env w userId es) = Inr p"
  with updateSettings_pg_run[OF Cons, of env es] show ?thesis by auto
qed

lemma updatedBy_null: "sv_updatedById v = None \<Longrightarrow> updatedBy w0 v = (None, w0)"
  by (simp add: updatedBy_def)

lemma views_resolve_null:
  assumes "map sv_updatedById vs = replicate n None"
  shows "list_all (\<lambda>v. updatedBy w0 v = (None, w0)) vs"
proof -
  have "\<forall>v \<in> set vs. sv_updatedById v = None"
    using assms by (metis (no_types, lifting) image_eqI list.set_map in_set_replicate)
  then show ?thesis by (simp add: list_all_iff updatedBy_null)
qed

lemma stored_resolve_null:
  "list_all (\<lambda>r. s_updated_by r = None) rows \<Longrightarrow>
   list_all (\<lambda>r. updatedBy w0 (storedView r) = (None, w0)) rows"
  by (simp add: list_all_iff updatedBy_def storedView_def)

text \<open>
  Claim C10. Neither \<open>updateSettings\<close> nor \<open>bulkUpdateSettings\<close>, in either file,
  records an updater: the rows that existed before the call keep their id, user, key and
  updated-by columns (only value and timestamp can change), and every row the call
  appends has a null updated-by. So \<open>Setting.updatedBy\<close> is null on every setting of the
  returned payload, and on every stored setting when the rows before the call had no
  updater.
\<close>

theorem mutations_never_record_updater:
  "keepsUpdaters (db w) (db (snd (updateSettings_kysely env w userId inputs)))
   \<and> keepsUpdaters (db w) (db (snd (updateSettings_pg env w userId inputs)))
   \<and> keepsUpdaters (db w) (db (snd (bulkUpdateSettings_kysely env w updates)))
   \<and> keepsUpdaters (db w) (db (snd (bulkUpdateSettings_pg env w updates)))
   \<and> (\<forall>p. fst (updateSettings_kysely env w userId inputs) = Inr p \<longrightarrow>
         list_all (\<lambda>v. updatedBy w0 v = (None, w0)) (sp_settings p))
   \<and> (\<forall>p. fst (updateSettings_pg env w userId inputs) = Inr p \<longrightarrow>
         list_all (\<lambda>v. updatedBy w0 v = (None, w0)) (sp_settings p))
   \<and> (list_all (\<lambda>r. s_updated_by r = None) (settings (db w)) \<longrightarrow>
         list_all (\<lambda>r. updatedBy w0 (storedView r) = (None, w0))
           (settings (db (snd (updateSettings_kysely env w userId inputs))))
       \<and> list_all (\<lambda>r. updatedBy w0 (storedView r) = (None, w0))
           (settings (db (snd (updateSettings_pg env w userId inputs))))
       \<and> list_all (\<lambda>r. updatedBy w0 (storedView r) = (None, w0))
           (settings (db (snd (bulkUpdateSettings_kysely env w updates))))
       \<and> list_all (\<lambda>r. updatedBy w0 (storedView r) = (None, w0))
           (settings (db (snd (bulkUpdateSettings_pg env w updates)))))"
proof -
  have k1: "keepsUpdaters (db w) (db (snd (updateSettings_kysely env w userId inputs)))"
    by (simp add: updateSettings_kysely_db keepsUpdaters_refl upsertAll_keepsUpdaters)
  have k2: "keepsUpdaters (db w) (db (snd (updateSettings_pg env w userId inputs)))"
    by (simp add: updateSettings_pg_db keepsUpdaters_refl upsertAll_keepsUpdaters)
  have k3: "keepsUpdaters (db w) (db (snd (bulkUpdateSettings_kysely env w updates)))"
    by (simp add: bulkUpdateSettings_kysely_run(2) upsertAll_keepsUpdaters)
  have k4: "keepsUpdaters (db w) (db (snd (bulkUpdateSettings_pg env w updates)))"
    by (simp add: bulkUpdateSettings_pg_run(2) upsertAll_keepsUpdaters)
  have v1: "list_all (\<lambda>v. updatedBy w0 v = (None, w0)) (sp_settings p)"
    if "fst (updateSettings_kysely env w userId inputs) = Inr p" for p
    using updateSettings_kysely_views[OF that] by (rule views_resolve_null)
  have v2: "list_all (\<lambda>v. updatedBy w0 v = (None, w0)) (sp_settings p)"
    if "fst (updateSettings_pg env w userId inputs) = Inr p" for p
    using updateSettings_pg_views[OF that] by (rule views_resolve_null)
  have s: "list_all (\<lambda>r. updatedBy w0 (storedView r) = (None, w0)) (settings d')"
    if "keepsUpdaters (db w) d'" "list_all (\<lambda>r. s_updated_by r = None) (settings (db w))" for d'
    using keepsUpdaters_all_null[OF that] by (rule stored_resolve_null)
  show ?thesis using k1 k2 k3 k4 v1 v2 s[OF k1] s[OF k2] s[OF k3] s[OF k4] by blast
qed

theorem mutations_never_record_updater_witness:
  "keepsUpdaters (db sampleWorld)
      (db (snd (bulkUpdateSettings_kysely sampleEnv sampleWorld (specExample ''U1'' ''bad''))))
   \<and> list_all (\<lambda>r. updatedBy sampleWorld (storedView r) = (None, sampleWorld))
        (settings (db (snd (updateSettings_kysely sampleEnv sampleWorld ''U1''
            [\<lparr>si_key = ''k'', si_value = ''a''\<rparr>]))))
   \<and> list_all (\<lambda>r. updatedBy sampleWorld (storedView r) = (None, sampleWorld))
        (settings (db (snd (bulkUpdateSettings_pg sampleEnv sampleWorld (specExample ''U1'' ''bad'')))))"
proof -
  have h: "list_all (\<lambda>r. s_updated_by r = None) (settings (db sampleWorld))"
    by (simp add: sample_defs)
  from mutations_never_record_updater[of sampleWorld sampleEnv "''U1''"
         "[\<lparr>si_key = ''k'', si_value = ''a''\<rparr>]" "specExample ''U1'' ''bad''" sampleWorld] h
  show ?thesis by blast
qed

section \<open>The cache, deleteUser and users\<close>

text \<open>
  \<open>Query.user\<close> of graphql-node-review.ts has no cache: every call sends its query.
\<close>

lemma user_kysely_always_queries:
  "user_kysely w i = (executeTakeFirst (selectUserById i (db w)), w\<lparr>issued := issued w @ [SelectUser i]\<rparr>)"
  by (simp add: user_kysely_def send_def)

text \<open>
  When the store answers the spliced query with a row, part_000's cache is a read-through
  cache with a TTL: after a first call that finds no fresh entry and caches the row at
  \<open>t1'\<close>, a call less than the TTL after \<open>t1'\<close> sends nothing and changes nothing, and a
  call at or beyond the TTL finds the entry, still stored, treated as absent and sends
  the query again.
\<close>

lemma user_pg_window_when_answered:
  assumes "getCache t1 (userKey i) (cache w) = None"
      and "answer i (db w) = Inr (row # rest)"
      and "t2 - t1' < CACHE_TTL"
      and "\<not> (t3 - t1' < CACHE_TTL)"
  shows "fst (user_pg answer t1 t1' w i) = map_sum (\<lambda>e. e) executeTakeFirst (answer i (db w))
       \<and> issued (snd (user_pg answer t1 t1' w i)) = issued w @ [SelectUserText i]
       \<and> user_pg answer t2 t2' (snd (user_pg answer t1 t1' w i)) i =
            (map_sum (\<lambda>e. e) executeTakeFirst (answer i (db w)), snd (user_pg answer t1 t1' w i))
       \<and> cache (snd (user_pg answer t1 t1' w i)) (userKey i) = Some \<lparr>data = row, timestamp = t1'\<rparr>
       \<and> getCache t3 (userKey i) (cache (snd (user_pg answer t1 t1' w i))) = None
       \<and> fst (user_pg answer t3 t3' (snd (user_pg answer t1 t1' w i)) i) =
            map_sum (\<lambda>e. e) executeTakeFirst (answer i (db w))
       \<and> issued (snd (user_pg answer t3 t3' (snd (user_pg answer t1 t1' w i)) i)) =
            issued w @ [SelectUserText i, SelectUserText i]
       \<and> db (snd (user_pg answer t3 t3' (snd (user_pg answer t1 t1' w i)) i)) = db w"
proof -
  let ?w1 = "(send (SelectUserText i) w)\<lparr>cache := setCache t1' (userKey i) row (cache w)\<rparr>"
  have first: "user_pg answer t1 t1' w i = (Inr (Some row), ?w1)"
    using assms(1,2) by (simp add: user_pg_def Let_def)
  have direct: "map_sum (\<lambda>e. e) executeTakeFirst (answer i (db w)) = Inr (Some row)"
    using assms(2) by (simp add: executeTakeFirst_def)
  have hit: "getCache t2 (userKey i) (cache ?w1) = Some row"
    using assms(3) by (simp add: getCache_def setCache_def)
  have stale: "getCache t3 (userKey i) (cache ?w1) = None"
    using assms(4) by (simp add: getCache_def setCache_def)
  have second: "user_pg answer t2 t2' ?w1 i = (Inr (Some row), ?w1)"
    using hit by (simp add: user_pg_def)
  have third: "user_pg answer t3 t3' ?w1 i =
      (Inr (Some row), (send (SelectUserText i) ?w1)\<lparr>cache := setCache t3' (userKey i) row (cache ?w1)\<rparr>)"
    using stale assms(2) by (simp add: user_pg_def Let_def)
  show ?thesis
    unfolding first direct snd_conv fst_conv second third
    using stale by (simp add: setCache_def)
qed

text \<open>When the store rejects the query, the call throws and caches nothing.\<close>

lemma user_pg_rejected:
  assumes "getCache t (userKey i) (cache w) = None" and "answer i (db w) = Inl e"
  shows "user_pg answer t t' w i = (Inl e, send (SelectUserText i) w)"
  using assms by (simp add: user_pg_def Let_def)

text \<open>
  Claim C4 on part_000, for the existing user \<open>U1\<close> and an empty cache. The resolver of
  graphql-node-review.ts finds the user. part_000's \<open>user\<close> sends \<^verbatim>\<open>... WHERE id = U1\<close>,
  which the store rejects: the first call throws and caches nothing, and a second call
  ten milliseconds later, well inside the TTL, sends the query again and throws again.
\<close>

theorem user_pg_existing_user_rejected:
  "fst (user_kysely sampleWorld ''U1'') = Some alice
   \<and> fst (user_pg (splicedAnswer rest) 0 5 sampleWorld ''U1'') = Inl QueryRejected
   \<and> cache (snd (user_pg (splicedAnswer rest) 0 5 sampleWorld ''U1'')) (userKey ''U1'') = None
   \<and> fst (user_pg (splicedAnswer rest) 10 15
             (snd (user_pg (splicedAnswer rest) 0 5 sampleWorld ''U1'')) ''U1'') = Inl QueryRejected
   \<and> issued (snd (user_pg (splicedAnswer rest) 10 15
             (snd (user_pg (splicedAnswer rest) 0 5 sampleWorld ''U1'')) ''U1'')) =
        [SelectUserText ''U1'', SelectUserText ''U1'']"
  by (simp add: user_pg_def user_kysely_def splicedAnswer_def letterThenDigits_def getCache_def
      send_def executeTakeFirst_def selectUserById_def Let_def sample_defs)

text \<open>
  \<open>deleteUser\<close> of graphql-node-review.ts sends the three deletions in the
  order activity log, settings, users, removes every row of the id from the three
  tables, and returns \<open>success = true\<close> with the id for every world and id, an absent user
  included.
\<close>

lemma deleteUser_kysely_removes_all:
  "deleteUser_kysely w i =
     (Inr \<lparr>dp_success = True, dp_deletedId = i\<rparr>,
      \<lparr>db = \<lparr>users = filter (\<lambda>u. u_id u \<noteq> i) (users (db w)),
             settings = filter (\<lambda>s. s_user_id s \<noteq> i) (settings (db w)),
             activity_log = filter (\<lambda>a. a_user_id a \<noteq> i) (activity_log (db w))\<rparr>,
       cache = cache w,
       issued = issued w @ [DeleteActivityLog i, DeleteSettings i, DeleteUsers i]\<rparr>)"
  by (simp add: deleteUser_kysely_def deleteUsers_def deleteSettings_def deleteActivityLog_def
      selectUserById_def send_def Let_def)

text \<open>
  \<open>deleteUser\<close> of part_000 sends no statement on the activity log and leaves that table
  as it is, for every world and id.
\<close>

lemma deleteUser_pg_keeps_activity_log:
  "issued (snd (deleteUser_pg w i)) = issued w @ [DeleteSettings i, DeleteUsers i]
   \<and> activity_log (db (snd (deleteUser_pg w i))) = activity_log (db w)"
  by (simp add: deleteUser_pg_def deleteUsers_def deleteSettings_def
      selectUserById_def send_def Let_def)

text \<open>
  Claim C5 on part_000, for a user with one setting and one activity entry: the call
  removes the setting, never addresses the activity log, and the store rejects the
  removal of the user row that the activity entry still references, so the call throws
  instead of returning \<open>success = true\<close>. The resolver of graphql-node-review.ts removes
  all three on the same world.
\<close>

theorem deleteUser_pg_with_activity:
  "fst (deleteUser_pg auditedWorld ''U1'') = Inl ForeignKeyViolation
   \<and> issued (snd (deleteUser_pg auditedWorld ''U1'')) = [DeleteSettings ''U1'', DeleteUsers ''U1'']
   \<and> activity_log (db (snd (deleteUser_pg auditedWorld ''U1''))) = activity_log (db auditedWorld)
   \<and> users (db (snd (deleteUser_pg auditedWorld ''U1''))) = [alice]
   \<and> settings (db (snd (deleteUser_pg auditedWorld ''U1''))) = []
   \<and> fst (deleteUser_kysely auditedWorld ''U1'') = Inr \<lparr>dp_success = True, dp_deletedId = ''U1''\<rparr>
   \<and> issued (snd (deleteUser_kysely auditedWorld ''U1'')) =
        [DeleteActivityLog ''U1'', DeleteSettings ''U1'', DeleteUsers ''U1'']
   \<and> activity_log (db (snd (deleteUser_kysely auditedWorld ''U1''))) = []"
  by (simp add: deleteUser_pg_def deleteUser_kysely_def deleteUsers_def deleteSettings_def
      deleteActivityLog_def selectUserById_def send_def Let_def auditedWorld_def alice_def)





end
